theory Spec2Isabelle
  imports Complex_Main "HOL-Library.Word"
begin

section \<open>Floating-point values\<close>

text \<open>
  The C++ types \<^verbatim>\<open>double\<close> and \<^verbatim>\<open>float\<close> are modelled by one type: a real
  number, the two infinities, or NaN. The special values follow IEEE 754: NaN is
  contagious and compares false with everything, \<open>0/0\<close>, \<open>Inf - Inf\<close>, \<open>0 * Inf\<close> and
  \<open>Inf/Inf\<close> are NaN, and a non-zero number divided by zero is an infinity.
  The operations below compute finite results exactly (no rounding, no overflow to
  infinity), and the sign of zero is not tracked, so a division by zero takes the sign of
  the dividend. Where a branch of the program depends on the rounding, in the times that
  \<^verbatim>\<open>AudioNode\<close> computes and compares, the exact result goes through a rounding function
  that is a parameter of the model.
\<close>

datatype double = Fin real | PosInf | NegInf | NaN

fun isnan :: "double \<Rightarrow> bool" where
  "isnan NaN = True"
| "isnan _ = False"

fun isinf :: "double \<Rightarrow> bool" where
  "isinf PosInf = True"
| "isinf NegInf = True"
| "isinf _ = False"

fun dneg :: "double \<Rightarrow> double" where
  "dneg (Fin a) = Fin (- a)"
| "dneg PosInf = NegInf"
| "dneg NegInf = PosInf"
| "dneg NaN = NaN"

fun dadd :: "double \<Rightarrow> double \<Rightarrow> double" where
  "dadd NaN _ = NaN"
| "dadd _ NaN = NaN"
| "dadd (Fin a) (Fin b) = Fin (a + b)"
| "dadd (Fin a) b = b"
| "dadd a (Fin b) = a"
| "dadd PosInf PosInf = PosInf"
| "dadd NegInf NegInf = NegInf"
| "dadd PosInf NegInf = NaN"
| "dadd NegInf PosInf = NaN"

definition dsub :: "double \<Rightarrow> double \<Rightarrow> double" where
  "dsub a b = dadd a (dneg b)"

text \<open>The infinity with the sign of a non-zero real.\<close>

definition signedInf :: "real \<Rightarrow> double" where
  "signedInf a = (if 0 < a then PosInf else NegInf)"

fun dmul :: "double \<Rightarrow> double \<Rightarrow> double" where
  "dmul NaN _ = NaN"
| "dmul _ NaN = NaN"
| "dmul (Fin a) (Fin b) = Fin (a * b)"
| "dmul (Fin a) PosInf = (if a = 0 then NaN else signedInf a)"
| "dmul (Fin a) NegInf = (if a = 0 then NaN else signedInf (- a))"
| "dmul PosInf (Fin b) = (if b = 0 then NaN else signedInf b)"
| "dmul NegInf (Fin b) = (if b = 0 then NaN else signedInf (- b))"
| "dmul PosInf PosInf = PosInf"
| "dmul NegInf NegInf = PosInf"
| "dmul PosInf NegInf = NegInf"
| "dmul NegInf PosInf = NegInf"

fun ddiv :: "double \<Rightarrow> double \<Rightarrow> double" where
  "ddiv NaN _ = NaN"
| "ddiv _ NaN = NaN"
| "ddiv (Fin a) (Fin b) =
     (if b = 0 then (if a = 0 then NaN else signedInf a) else Fin (a / b))"
| "ddiv (Fin a) b = Fin 0"
| "ddiv PosInf (Fin b) = (if 0 \<le> b then PosInf else NegInf)"
| "ddiv NegInf (Fin b) = (if 0 \<le> b then NegInf else PosInf)"
| "ddiv a b = NaN"

text \<open>The comparison operators: each is false as soon as one operand is NaN,
  except \<^verbatim>\<open>!=\<close>, which is then true.\<close>

fun dlt :: "double \<Rightarrow> double \<Rightarrow> bool" where
  "dlt NaN _ = False"
| "dlt _ NaN = False"
| "dlt (Fin a) (Fin b) = (a < b)"
| "dlt (Fin a) PosInf = True"
| "dlt NegInf (Fin b) = True"
| "dlt NegInf PosInf = True"
| "dlt a b = False"

definition dgt :: "double \<Rightarrow> double \<Rightarrow> bool" where
  "dgt a b = dlt b a"

definition deq :: "double \<Rightarrow> double \<Rightarrow> bool" where
  "deq a b = (\<not> isnan a \<and> \<not> isnan b \<and> a = b)"

definition dne :: "double \<Rightarrow> double \<Rightarrow> bool" where
  "dne a b = (\<not> deq a b)"

definition dle :: "double \<Rightarrow> double \<Rightarrow> bool" where
  "dle a b = (dlt a b \<or> deq a b)"

definition dge :: "double \<Rightarrow> double \<Rightarrow> bool" where
  "dge a b = dle b a"

text \<open>\<^verbatim>\<open>std::min(a, b)\<close> is \<^verbatim>\<open>(b < a) ? b : a\<close>.\<close>

definition dmin :: "double \<Rightarrow> double \<Rightarrow> double" where
  "dmin a b = (if dlt b a then b else a)"

fun dsqrt :: "double \<Rightarrow> double" where
  "dsqrt (Fin a) = (if a < 0 then NaN else Fin (sqrt a))"
| "dsqrt PosInf = PosInf"
| "dsqrt a = NaN"

text \<open>\<^verbatim>\<open>acos\<close> is NaN outside \<open>[-1, 1]\<close>.\<close>

fun dacos :: "double \<Rightarrow> double" where
  "dacos (Fin a) = (if - 1 \<le> a \<and> a \<le> 1 then Fin (arccos a) else NaN)"
| "dacos a = NaN"

definition piDouble :: double where
  "piDouble = Fin pi"

section \<open>FloatPoint3D\<close>

text \<open>
  Modelled from the spec: the class \<^verbatim>\<open>FloatPoint3D\<close> is not among the sources. The
  spec's vector notation (\<open>P - listener.position\<close>, \<open>|SL|\<close>, \<open>SL \<cdot> v\<close>, \<open>\<times>\<close>, normalize)
  is read as the component-wise operations on three floats; \<open>isZero\<close> holds when every
  component compares equal to zero, and \<open>normalize\<close> divides by the length unless the
  length is zero.
\<close>

record FloatPoint3D =
  m_x :: double
  m_y :: double
  m_z :: double

definition FloatPoint3D :: "real \<Rightarrow> real \<Rightarrow> real \<Rightarrow> FloatPoint3D" where
  "FloatPoint3D a b c = \<lparr>m_x = Fin a, m_y = Fin b, m_z = Fin c\<rparr>"

definition isZero :: "FloatPoint3D \<Rightarrow> bool" where
  "isZero v = (deq (m_x v) (Fin 0) \<and> deq (m_y v) (Fin 0) \<and> deq (m_z v) (Fin 0))"

definition vsub :: "FloatPoint3D \<Rightarrow> FloatPoint3D \<Rightarrow> FloatPoint3D" where
  "vsub a b = \<lparr>m_x = dsub (m_x a) (m_x b), m_y = dsub (m_y a) (m_y b),
               m_z = dsub (m_z a) (m_z b)\<rparr>"

definition vscale :: "double \<Rightarrow> FloatPoint3D \<Rightarrow> FloatPoint3D" where
  "vscale k v = \<lparr>m_x = dmul k (m_x v), m_y = dmul k (m_y v), m_z = dmul k (m_z v)\<rparr>"

definition dot :: "FloatPoint3D \<Rightarrow> FloatPoint3D \<Rightarrow> double" where
  "dot a b = dadd (dadd (dmul (m_x a) (m_x b)) (dmul (m_y a) (m_y b)))
                  (dmul (m_z a) (m_z b))"

definition cross :: "FloatPoint3D \<Rightarrow> FloatPoint3D \<Rightarrow> FloatPoint3D" where
  "cross a b =
     \<lparr>m_x = dsub (dmul (m_y a) (m_z b)) (dmul (m_z a) (m_y b)),
      m_y = dsub (dmul (m_z a) (m_x b)) (dmul (m_x a) (m_z b)),
      m_z = dsub (dmul (m_x a) (m_y b)) (dmul (m_y a) (m_x b))\<rparr>"

definition vlength :: "FloatPoint3D \<Rightarrow> double" where
  "vlength v = dsqrt (dot v v)"

definition normalize :: "FloatPoint3D \<Rightarrow> FloatPoint3D" where
  "normalize v =
     (let tempLength = vlength v in
      if deq tempLength (Fin 0) then v
      else \<lparr>m_x = ddiv (m_x v) tempLength, m_y = ddiv (m_y v) tempLength,
            m_z = ddiv (m_z v) tempLength\<rparr>)"

section \<open>PannerNode\<close>

text \<open>
  The listener is reached through the context (\<^verbatim>\<open>context().lock()->listener()\<close>); the
  functions below take it as an argument. Its record holds the values of the accessors
  that \<^verbatim>\<open>PannerNode.cpp\<close> calls.
\<close>

record AudioListener =
  position :: FloatPoint3D
  orientation :: FloatPoint3D
  upVector :: FloatPoint3D
  velocity :: FloatPoint3D
  dopplerFactor :: double
  speedOfSound :: double

text \<open>
  Modelled from the spec: \<^verbatim>\<open>Panner::create\<close> is not among the sources. It allocates a
  new panner strategy for the model; the strategy object is represented by the model it
  was created for and by a serial number that tells two allocations apart.
\<close>

record Panner =
  pannerModel :: "16 word"
  pannerSerial :: nat

datatype ExceptionCode = NO_ERR | INDEX_SIZE_ERR | NOT_SUPPORTED_ERR | SYNTAX_ERR

text \<open>The fields of \<^verbatim>\<open>PannerNode\<close> that the functions below read or write, and the number
  of panner strategies allocated so far.\<close>

record PannerNode =
  m_position :: FloatPoint3D
  m_orientation :: FloatPoint3D
  m_velocity :: FloatPoint3D
  m_panningModel :: "16 word"
  m_panner :: "Panner option"
  pannersCreated :: nat

text \<open>Modelled from the spec: the enumerators of \<^verbatim>\<open>PannerNode.h\<close>, which is not among
  the sources: EQUALPOWER=0, HRTF=1, SOUNDFIELD=2.\<close>

definition EQUALPOWER :: "16 word" where "EQUALPOWER = 0"
definition HRTF :: "16 word" where "HRTF = 1"
definition SOUNDFIELD :: "16 word" where "SOUNDFIELD = 2"

definition Panner_create :: "16 word \<Rightarrow> PannerNode \<Rightarrow> PannerNode" where
  "Panner_create model p =
     p\<lparr>m_panner := Some \<lparr>pannerModel = model, pannerSerial = pannersCreated p\<rparr>,
       pannersCreated := Suc (pannersCreated p)\<rparr>"

text \<open>\<^verbatim>\<open>PannerNode::setPanningModel(model, ec)\<close>: the exception code is an out-parameter,
  written only on the error path.\<close>

definition setPanningModel ::
  "16 word \<Rightarrow> ExceptionCode \<times> PannerNode \<Rightarrow> ExceptionCode \<times> PannerNode" where
  "setPanningModel model s =
     (case s of (ec, p) \<Rightarrow>
        if model = EQUALPOWER \<or> model = HRTF then
          (if m_panner p = None \<or> model \<noteq> m_panningModel p
           then (ec, (Panner_create model p)\<lparr>m_panningModel := model\<rparr>)
           else (ec, p))
        else (NOT_SUPPORTED_ERR, p))"

text \<open>\<^verbatim>\<open>fixNANs\<close>: the reference parameter is returned.\<close>

definition fixNANs :: "double \<Rightarrow> double" where
  "fixNANs x = (if isnan x \<or> isinf x then Fin 0 else x)"

text \<open>\<^verbatim>\<open>PannerNode::getAzimuthElevation\<close>: the pair of values stored through the two
  out-pointers, which the caller \<^verbatim>\<open>process\<close> passes non-null.\<close>

definition getAzimuthElevation :: "AudioListener \<Rightarrow> PannerNode \<Rightarrow> double \<times> double" where
  "getAzimuthElevation l p =
     (let listenerPosition = position l;
          sourceListener = vsub (m_position p) listenerPosition
      in if isZero sourceListener then (Fin 0, Fin 0)
         else
           let sourceListener = normalize sourceListener;
               listenerFront = orientation l;
               listenerUp = upVector l;
               listenerRight = normalize (cross listenerFront listenerUp);
               listenerFrontNorm = normalize listenerFront;
               up = cross listenerRight listenerFrontNorm;
               upProjection = dot sourceListener up;
               projectedSource = normalize (vsub sourceListener (vscale upProjection up));
               azimuth = fixNANs (ddiv (dmul (Fin 180)
                           (dacos (dot projectedSource listenerRight))) piDouble);
               frontBack = dot projectedSource listenerFrontNorm;
               azimuth = (if dlt frontBack (Fin 0) then dsub (Fin 360) azimuth else azimuth);
               azimuth = (if dge azimuth (Fin 0) \<and> dle azimuth (Fin 270)
                          then dsub (Fin 90) azimuth else dsub (Fin 450) azimuth);
               elevation = fixNANs (dsub (Fin 90)
                             (ddiv (dmul (Fin 180) (dacos (dot sourceListener up))) piDouble));
               elevation = (if dgt elevation (Fin 90) then dsub (Fin 180) elevation
                            else if dlt elevation (Fin (- 90)) then dsub (Fin (- 180)) elevation
                            else elevation)
           in (azimuth, elevation))"

text \<open>The quotient that \<^verbatim>\<open>dopplerRate\<close> assigns to \<^verbatim>\<open>dopplerShift\<close> before it calls
  \<^verbatim>\<open>fixNANs\<close>.\<close>

definition dopplerQuotient :: "AudioListener \<Rightarrow> PannerNode \<Rightarrow> double" where
  "dopplerQuotient l p =
     (let dopplerFactor = dopplerFactor l;
          speedOfSound = speedOfSound l;
          sourceVelocity = m_velocity p;
          listenerVelocity = velocity l;
          listenerPosition = position l;
          sourceToListener = vsub (m_position p) listenerPosition;
          sourceListenerMagnitude = vlength sourceToListener;
          listenerProjection = ddiv (dot sourceToListener listenerVelocity) sourceListenerMagnitude;
          sourceProjection = ddiv (dot sourceToListener sourceVelocity) sourceListenerMagnitude;
          listenerProjection = dneg listenerProjection;
          sourceProjection = dneg sourceProjection;
          scaledSpeedOfSound = ddiv speedOfSound dopplerFactor;
          listenerProjection = dmin listenerProjection scaledSpeedOfSound;
          sourceProjection = dmin sourceProjection scaledSpeedOfSound
      in ddiv (dsub speedOfSound (dmul dopplerFactor listenerProjection))
              (dsub speedOfSound (dmul dopplerFactor sourceProjection)))"

text \<open>The limit to 4 octaves up and 3 octaves down.\<close>

definition limitShift :: "double \<Rightarrow> double" where
  "limitShift dopplerShift =
     (if dgt dopplerShift (Fin 16) then Fin 16
      else if dlt dopplerShift (Fin 0.125) then Fin 0.125
      else dopplerShift)"

text \<open>\<^verbatim>\<open>PannerNode::dopplerRate\<close>. The final conversion to \<^verbatim>\<open>float\<close> is the identity of the
  model.\<close>

definition dopplerRate :: "AudioListener \<Rightarrow> PannerNode \<Rightarrow> double" where
  "dopplerRate l p =
     (let dopplerShift = Fin 1 in
      if dgt (dopplerFactor l) (Fin 0) then
        (let sourceHasVelocity = \<not> isZero (m_velocity p);
             listenerHasVelocity = \<not> isZero (velocity l)
         in if sourceHasVelocity \<or> listenerHasVelocity
            then limitShift (fixNANs (dopplerQuotient l p))
            else dopplerShift)
      else dopplerShift)"

section \<open>The audio graph\<close>

text \<open>
  \<^verbatim>\<open>AudioNode.cpp\<close> works on objects of the classes \<^verbatim>\<open>AudioContext\<close>,
  \<^verbatim>\<open>AudioNodeInput\<close>, \<^verbatim>\<open>AudioNodeOutput\<close>, \<^verbatim>\<open>AudioParam\<close> and \<^verbatim>\<open>AudioBus\<close>, none of
  which is among the sources. Their data is modelled from the spec (section 3), as far as
  the functions of \<^verbatim>\<open>AudioNode.cpp\<close> reach it. Objects live in a store and are named by
  their index there; a pointer is an index or null (\<open>None\<close>), a weak pointer to a context
  is an index whose context may be gone. The functions run one at a time: the graph lock
  and the assertions on the calling thread (\<^verbatim>\<open>isMainThread\<close>, \<^verbatim>\<open>isAudioThread\<close>,
  \<^verbatim>\<open>isGraphOwner\<close>) have no counterpart here. An assertion on the data that fails makes
  the result of the function \<open>None\<close>. Reference counts are integers without a bound, and
  the number of ports of a node fits into an \<^verbatim>\<open>unsigned\<close>.
\<close>

text \<open>The enumerators of \<^verbatim>\<open>NodeType\<close> that the sources name; the others are gathered under
  \<open>NodeTypeOther\<close>.\<close>

datatype NodeType =
    NodeTypeUnknown
  | NodeTypeAudioBufferSource
  | NodeTypePanner
  | NodeTypeConvolver
  | NodeTypeDelay
  | NodeTypeOther nat

datatype RefType = RefTypeNormal | RefTypeConnection

text \<open>Modelled from the spec: an \<^verbatim>\<open>AudioBus\<close> owns a block of samples and a silent flag;
  \<^verbatim>\<open>zero\<close> clears the samples and sets the flag, \<^verbatim>\<open>clearSilentFlag\<close> resets it.\<close>

record AudioBus =
  busSamples :: "double list"
  busSilent :: bool

definition AudioBus_zero :: "AudioBus \<Rightarrow> AudioBus" where
  "AudioBus_zero b = b\<lparr>busSamples := map (\<lambda>_. Fin 0) (busSamples b), busSilent := True\<rparr>"

definition clearSilentFlag :: "AudioBus \<Rightarrow> AudioBus" where
  "clearSilentFlag b = b\<lparr>busSilent := False\<rparr>"

text \<open>Modelled from the spec: an input knows the outputs connected to it and the outputs it
  renders from, each named by its node and its index there, and owns a summing bus; an
  output knows the inputs and the params connected to it and owns its bus.\<close>

record AudioNodeInput =
  in_outputs :: "(nat \<times> nat) list"
  in_renderingOutputs :: "(nat \<times> nat) list"
  in_bus :: AudioBus

record AudioNodeOutput =
  out_inputs :: "(nat \<times> nat) list"
  out_params :: "nat list"
  out_bus :: AudioBus

record AudioParam =
  param_context :: nat
  param_outputs :: "(nat \<times> nat) list"

text \<open>Modelled from the spec: the context holds the current time, the sample frame
  counter (\<^verbatim>\<open>size_t\<close>), the connection count (\<^verbatim>\<open>unsigned\<close>) and the deletion list. The
  current time is the double that \<^verbatim>\<open>currentTime()\<close> returns, which the spec gives as
  \<open>current_sample_frame / sample_rate\<close>; the class that computes it is not among the
  sources, and every value of it is admitted here.\<close>

record AudioContext =
  currentTime :: double
  m_currentSampleFrame :: "64 word"
  m_connectionCount :: "32 word"
  m_nodesMarkedForDeletion :: "nat list"

text \<open>The data members of \<^verbatim>\<open>AudioNode\<close>, as its constructor initialises them.\<close>

record AudioNode =
  m_isInitialized :: bool
  m_nodeType :: NodeType
  m_context :: nat
  m_sampleRate :: double
  m_lastProcessingTime :: double
  m_lastNonSilentTime :: double
  m_normalRefCount :: int
  m_connectionRefCount :: int
  m_isMarkedForDeletion :: bool
  m_isDisabled :: bool
  m_inputs :: "AudioNodeInput list"
  m_outputs :: "AudioNodeOutput list"

text \<open>
  Calls whose effect lies wholly in classes outside the sources are recorded, in program
  order, in the call log of the store: the virtual \<^verbatim>\<open>process\<close> of a node, and
  \<^verbatim>\<open>enable\<close>, \<^verbatim>\<open>disable\<close> and \<^verbatim>\<open>disconnectAll\<close> of the output with the given index of
  a node.
\<close>

datatype Call =
    ProcessCall nat "64 word"
  | OutputEnable nat nat
  | OutputDisable nat nat
  | OutputDisconnectAll nat nat

record World =
  nodes :: "nat \<Rightarrow> AudioNode"
  contexts :: "nat \<Rightarrow> AudioContext option"
  params :: "nat \<Rightarrow> AudioParam"
  calls :: "Call list"

text \<open>
  What a node class overrides, what \<^verbatim>\<open>AudioBus\<close> computes and how the machine rounds,
  taken as parameters: the buses that the virtual \<^verbatim>\<open>process\<close> of a node writes to its
  outputs, the values of the virtual \<^verbatim>\<open>latencyTime\<close> and \<^verbatim>\<open>tailTime\<close>, the mix of the
  buses of the outputs connected to an input, and the double that a conversion or an
  arithmetic operation yields when its exact result is the given real.
\<close>

record Overrides =
  processOutputs :: "nat \<Rightarrow> 64 word \<Rightarrow> World \<Rightarrow> AudioBus list"
  latencyTime :: "nat \<Rightarrow> World \<Rightarrow> double"
  tailTime :: "nat \<Rightarrow> World \<Rightarrow> double"
  mixBuses :: "AudioBus list \<Rightarrow> AudioBus"
  roundDouble :: "real \<Rightarrow> double"

text \<open>The result of an operation on doubles, rounded when it is finite.\<close>

definition rounded :: "Overrides \<Rightarrow> double \<Rightarrow> double" where
  "rounded ov a = (case a of Fin r \<Rightarrow> roundDouble ov r | _ \<Rightarrow> a)"

definition updNode :: "nat \<Rightarrow> (AudioNode \<Rightarrow> AudioNode) \<Rightarrow> World \<Rightarrow> World" where
  "updNode n f w = w\<lparr>nodes := (nodes w)(n := f (nodes w n))\<rparr>"

definition logCalls :: "Call list \<Rightarrow> World \<Rightarrow> World" where
  "logCalls cs w = w\<lparr>calls := calls w @ cs\<rparr>"

text \<open>\<^verbatim>\<open>context().lock()\<close>: the context of a node, or null when it has expired.\<close>

definition lockContext :: "World \<Rightarrow> nat \<Rightarrow> nat option" where
  "lockContext w c = (case contexts w c of None \<Rightarrow> None | Some _ \<Rightarrow> Some c)"

subsection \<open>Ports\<close>

definition numberOfInputs :: "AudioNode \<Rightarrow> nat" where
  "numberOfInputs node = length (m_inputs node)"

definition numberOfOutputs :: "AudioNode \<Rightarrow> nat" where
  "numberOfOutputs node = length (m_outputs node)"

text \<open>\<^verbatim>\<open>AudioNode::input(i)\<close> and \<^verbatim>\<open>AudioNode::output(i)\<close>: the port, or the null pointer.\<close>

definition AudioNode_input :: "AudioNode \<Rightarrow> 32 word \<Rightarrow> AudioNodeInput option" where
  "AudioNode_input node i = (if unat i < length (m_inputs node) then Some (m_inputs node ! unat i) else None)"

definition AudioNode_output :: "AudioNode \<Rightarrow> 32 word \<Rightarrow> AudioNodeOutput option" where
  "AudioNode_output node i = (if unat i < length (m_outputs node) then Some (m_outputs node ! unat i) else None)"

subsection \<open>Reference counts\<close>

text \<open>\<^verbatim>\<open>AudioNode::enableOutputsIfNecessary\<close>.\<close>

definition enableOutputsIfNecessary :: "nat \<Rightarrow> World \<Rightarrow> World" where
  "enableOutputsIfNecessary n w =
     (if m_isDisabled (nodes w n) \<and> 0 < m_connectionRefCount (nodes w n) then
        logCalls (map (OutputEnable n) [0 ..< length (m_outputs (nodes w n))])
          (updNode n (\<lambda>node. node\<lparr>m_isDisabled := False\<rparr>) w)
      else w)"

text \<open>\<^verbatim>\<open>AudioNode::disableOutputsIfNecessary\<close>.\<close>

definition disableOutputsIfNecessary :: "nat \<Rightarrow> World \<Rightarrow> World" where
  "disableOutputsIfNecessary n w =
     (if m_connectionRefCount (nodes w n) \<le> 1 \<and> \<not> m_isDisabled (nodes w n) then
        (if m_nodeType (nodes w n) \<noteq> NodeTypeConvolver \<and> m_nodeType (nodes w n) \<noteq> NodeTypeDelay then
           logCalls (map (OutputDisable n) [0 ..< length (m_outputs (nodes w n))])
             (updNode n (\<lambda>node. node\<lparr>m_isDisabled := True\<rparr>) w)
         else w)
      else w)"

text \<open>\<^verbatim>\<open>AudioNode::ref\<close>.\<close>

definition ref :: "RefType \<Rightarrow> nat \<Rightarrow> World \<Rightarrow> World" where
  "ref refType n w =
     (case refType of
        RefTypeNormal \<Rightarrow>
          updNode n (\<lambda>node. node\<lparr>m_normalRefCount := m_normalRefCount node + 1\<rparr>) w
      | RefTypeConnection \<Rightarrow>
          enableOutputsIfNecessary n
            (updNode n (\<lambda>node. node\<lparr>m_connectionRefCount := m_connectionRefCount node + 1\<rparr>) w))"

text \<open>Modelled from the spec: \<^verbatim>\<open>AudioContext::markForDeletion\<close> places the node on the
  deletion list of the context.\<close>

definition markForDeletion :: "nat \<Rightarrow> nat \<Rightarrow> World \<Rightarrow> World" where
  "markForDeletion c n w =
     (case contexts w c of
        None \<Rightarrow> w
      | Some ac \<Rightarrow>
          w\<lparr>contexts := (contexts w)
               (c \<mapsto> ac\<lparr>m_nodesMarkedForDeletion := m_nodesMarkedForDeletion ac @ [n]\<rparr>)\<rparr>)"

text \<open>The decrement of \<^verbatim>\<open>finishDeref\<close>, with its assertion that the count is positive;
  a failed assertion is \<open>None\<close>.\<close>

definition decrementRef :: "RefType \<Rightarrow> AudioNode \<Rightarrow> AudioNode option" where
  "decrementRef refType node =
     (case refType of
        RefTypeNormal \<Rightarrow>
          if 0 < m_normalRefCount node
          then Some (node\<lparr>m_normalRefCount := m_normalRefCount node - 1\<rparr>) else None
      | RefTypeConnection \<Rightarrow>
          if 0 < m_connectionRefCount node
          then Some (node\<lparr>m_connectionRefCount := m_connectionRefCount node - 1\<rparr>) else None)"

text \<open>\<^verbatim>\<open>AudioNode::finishDeref\<close>.\<close>

definition finishDeref :: "RefType \<Rightarrow> nat \<Rightarrow> World \<Rightarrow> World option" where
  "finishDeref refType n w =
     (let shuttingDown = (contexts w (m_context (nodes w n)) = None) in
      case decrementRef refType (nodes w n) of
        None \<Rightarrow> None
      | Some node \<Rightarrow>
          let w1 = updNode n (\<lambda>_. node) w in
          if m_connectionRefCount node = 0 then
            (if m_normalRefCount node = 0 then
               (if \<not> m_isMarkedForDeletion node then
                  let w2 = logCalls (map (OutputDisconnectAll n) [0 ..< length (m_outputs node)]) w1;
                      w3 = (if \<not> shuttingDown then markForDeletion (m_context node) n w2 else w2)
                  in Some (updNode n (\<lambda>node. node\<lparr>m_isMarkedForDeletion := True\<rparr>) w3)
                else Some w1)
             else if refType = RefTypeConnection then Some (disableOutputsIfNecessary n w1)
             else Some w1)
          else Some w1)"

subsection \<open>Connections\<close>

definition updInput :: "nat \<Rightarrow> nat \<Rightarrow> (AudioNodeInput \<Rightarrow> AudioNodeInput) \<Rightarrow> World \<Rightarrow> World" where
  "updInput n i f w =
     updNode n (\<lambda>node. node\<lparr>m_inputs := (m_inputs node)[i := f (m_inputs node ! i)]\<rparr>) w"

definition updOutput :: "nat \<Rightarrow> nat \<Rightarrow> (AudioNodeOutput \<Rightarrow> AudioNodeOutput) \<Rightarrow> World \<Rightarrow> World" where
  "updOutput n i f w =
     updNode n (\<lambda>node. node\<lparr>m_outputs := (m_outputs node)[i := f (m_outputs node ! i)]\<rparr>) w"

text \<open>Modelled from the spec: \<^verbatim>\<open>AudioNodeInput::connect\<close> is not among the sources. It
  registers the cross-reference on both sides, increments the connection count of the
  node of the input and enables the outputs of that node if necessary; the last two are
  \<^verbatim>\<open>AudioNode::ref\<close>.\<close>

definition AudioNodeInput_connect :: "nat \<times> nat \<Rightarrow> nat \<times> nat \<Rightarrow> World \<Rightarrow> World" where
  "AudioNodeInput_connect inp outp w =
     (let w1 = updInput (fst inp) (snd inp)
                 (\<lambda>i. i\<lparr>in_outputs := List.insert outp (in_outputs i)\<rparr>) w;
          w2 = updOutput (fst outp) (snd outp)
                 (\<lambda>out. out\<lparr>out_inputs := List.insert inp (out_inputs out)\<rparr>) w1
      in ref RefTypeConnection (fst inp) w2)"

text \<open>Modelled from the spec: \<^verbatim>\<open>AudioContext::incrementConnectionCount\<close> bumps the
  connection count, an \<^verbatim>\<open>unsigned\<close>.\<close>

definition incrementConnectionCount :: "nat \<Rightarrow> World \<Rightarrow> World" where
  "incrementConnectionCount c w =
     (case contexts w c of
        None \<Rightarrow> w
      | Some ac \<Rightarrow>
          w\<lparr>contexts := (contexts w)(c \<mapsto> ac\<lparr>m_connectionCount := m_connectionCount ac + 1\<rparr>)\<rparr>)"

text \<open>\<^verbatim>\<open>AudioNode::connect(AudioNode*, unsigned, unsigned, ExceptionCode&)\<close>. The result is
  \<open>None\<close> when the assertion at its head fails (the context of the node has expired).\<close>

definition connect ::
  "nat \<Rightarrow> nat option \<Rightarrow> 32 word \<Rightarrow> 32 word \<Rightarrow> ExceptionCode \<times> World
     \<Rightarrow> (ExceptionCode \<times> World) option" where
  "connect this destination outputIndex inputIndex s =
     (case s of (ec, w) \<Rightarrow>
        (case lockContext w (m_context (nodes w this)) of
          None \<Rightarrow> None
        | Some ac \<Rightarrow>
            (case destination of
               None \<Rightarrow> Some (SYNTAX_ERR, w)
             | Some dest \<Rightarrow>
                 if numberOfOutputs (nodes w this) \<le> unat outputIndex then Some (INDEX_SIZE_ERR, w)
                 else if numberOfInputs (nodes w dest) \<le> unat inputIndex then Some (INDEX_SIZE_ERR, w)
                 else if Some ac \<noteq> lockContext w (m_context (nodes w dest)) then Some (SYNTAX_ERR, w)
                 else Some (ec, incrementConnectionCount ac
                                  (AudioNodeInput_connect (dest, unat inputIndex)
                                     (this, unat outputIndex) w)))))"

text \<open>Modelled from the spec: \<^verbatim>\<open>AudioParam::connect\<close> is not among the sources. The param
  keeps the list of the outputs connected to it, and the output the params it drives.\<close>

definition AudioParam_connect :: "nat \<Rightarrow> nat \<times> nat \<Rightarrow> World \<Rightarrow> World" where
  "AudioParam_connect pa outp w =
     (let w1 = w\<lparr>params := (params w)
                  (pa := (params w pa)\<lparr>param_outputs := List.insert outp (param_outputs (params w pa))\<rparr>)\<rparr>
      in updOutput (fst outp) (snd outp)
           (\<lambda>out. out\<lparr>out_params := List.insert pa (out_params out)\<rparr>) w1)"

text \<open>\<^verbatim>\<open>AudioNode::connect(AudioParam*, unsigned, ExceptionCode&)\<close>.\<close>

definition connectParam ::
  "nat \<Rightarrow> nat option \<Rightarrow> 32 word \<Rightarrow> ExceptionCode \<times> World \<Rightarrow> (ExceptionCode \<times> World) option" where
  "connectParam this param outputIndex s =
     (case s of (ec, w) \<Rightarrow>
        (case lockContext w (m_context (nodes w this)) of
          None \<Rightarrow> None
        | Some ac \<Rightarrow>
            (case param of
               None \<Rightarrow> Some (SYNTAX_ERR, w)
             | Some pa \<Rightarrow>
                 if numberOfOutputs (nodes w this) \<le> unat outputIndex then Some (INDEX_SIZE_ERR, w)
                 else if Some ac \<noteq> lockContext w (param_context (params w pa)) then Some (SYNTAX_ERR, w)
                 else Some (ec, AudioParam_connect pa (this, unat outputIndex) w))))"

subsection \<open>Rendering\<close>

text \<open>The calls of \<^verbatim>\<open>processIfNecessary\<close> on a list of nodes, one after the other; the
  callee is a parameter, and a call that does not return ends the sequence.\<close>

fun processEach :: "(nat \<Rightarrow> World \<Rightarrow> World option) \<Rightarrow> nat list \<Rightarrow> World \<Rightarrow> World option" where
  "processEach rec [] w = Some w"
| "processEach rec (m # ms) w =
     (case rec m w of None \<Rightarrow> None | Some w' \<Rightarrow> processEach rec ms w')"

text \<open>The buses of the outputs in a list of connections; a connection to an output that
  its node does not have contributes none.\<close>

definition connectedBuses :: "World \<Rightarrow> (nat \<times> nat) list \<Rightarrow> AudioBus list" where
  "connectedBuses w cs =
     List.map_filter
       (\<lambda>c. if snd c < length (m_outputs (nodes w (fst c)))
            then Some (out_bus (m_outputs (nodes w (fst c)) ! snd c)) else None) cs"

text \<open>
  Modelled from the spec: \<^verbatim>\<open>AudioNodeInput::pull\<close> is not among the sources. It has the
  node of each connected upstream output process if necessary, then mixes the buses of
  these outputs into the bus of the input; with no connection the bus is zeroed and its
  silent flag set.
\<close>

definition AudioNodeInput_pull ::
  "Overrides \<Rightarrow> (nat \<Rightarrow> World \<Rightarrow> World option) \<Rightarrow> nat \<Rightarrow> nat \<Rightarrow> World \<Rightarrow> World option" where
  "AudioNodeInput_pull ov rec n i w =
     (let cs = in_renderingOutputs (m_inputs (nodes w n) ! i) in
      if cs = [] then Some (updInput n i (\<lambda>inp. inp\<lparr>in_bus := AudioBus_zero (in_bus inp)\<rparr>) w)
      else
        (case processEach rec (map fst cs) w of
           None \<Rightarrow> None
         | Some w' \<Rightarrow>
             Some (updInput n i (\<lambda>inp. inp\<lparr>in_bus := mixBuses ov (connectedBuses w' cs)\<rparr>) w')))"

text \<open>\<^verbatim>\<open>AudioNode::pullInputs\<close>: the loop over the indices of the inputs. No function of
  this model changes the number of inputs of a node, so the indices are fixed when the
  loop starts.\<close>

fun pullInputsLoop ::
  "Overrides \<Rightarrow> (nat \<Rightarrow> World \<Rightarrow> World option) \<Rightarrow> nat \<Rightarrow> nat list \<Rightarrow> World \<Rightarrow> World option" where
  "pullInputsLoop ov rec n [] w = Some w"
| "pullInputsLoop ov rec n (i # is) w =
     (case AudioNodeInput_pull ov rec n i w of
        None \<Rightarrow> None
      | Some w' \<Rightarrow> pullInputsLoop ov rec n is w')"

definition pullInputs ::
  "Overrides \<Rightarrow> (nat \<Rightarrow> World \<Rightarrow> World option) \<Rightarrow> nat \<Rightarrow> World \<Rightarrow> World option" where
  "pullInputs ov rec n w = pullInputsLoop ov rec n [0 ..< length (m_inputs (nodes w n))] w"

text \<open>\<^verbatim>\<open>AudioNode::inputsAreSilent\<close>.\<close>

definition inputsAreSilent :: "AudioNode \<Rightarrow> bool" where
  "inputsAreSilent node = list_all (\<lambda>inp. busSilent (in_bus inp)) (m_inputs node)"

text \<open>\<^verbatim>\<open>AudioNode::silenceOutputs\<close> and \<^verbatim>\<open>AudioNode::unsilenceOutputs\<close>.\<close>

definition silenceOutputs :: "nat \<Rightarrow> World \<Rightarrow> World" where
  "silenceOutputs n w =
     updNode n (\<lambda>node. node\<lparr>m_outputs :=
       map (\<lambda>out. out\<lparr>out_bus := AudioBus_zero (out_bus out)\<rparr>) (m_outputs node)\<rparr>) w"

definition unsilenceOutputs :: "nat \<Rightarrow> World \<Rightarrow> World" where
  "unsilenceOutputs n w =
     updNode n (\<lambda>node. node\<lparr>m_outputs :=
       map (\<lambda>out. out\<lparr>out_bus := clearSilentFlag (out_bus out)\<rparr>) (m_outputs node)\<rparr>) w"

text \<open>\<^verbatim>\<open>AudioNode::propagatesSilence\<close>, \<open>None\<close> when its assertion fails (the context has
  expired).\<close>

definition propagatesSilence :: "Overrides \<Rightarrow> nat \<Rightarrow> World \<Rightarrow> bool option" where
  "propagatesSilence ov n w =
     (case contexts w (m_context (nodes w n)) of
        None \<Rightarrow> None
      | Some ac \<Rightarrow>
          Some (dlt (rounded ov (dadd (rounded ov (dadd (m_lastNonSilentTime (nodes w n))
                                                       (latencyTime ov n w)))
                                      (tailTime ov n w)))
                    (currentTime ac)))"

text \<open>The call of the virtual \<^verbatim>\<open>process\<close>: it is recorded in the call log, and the buses
  it computes are written to the outputs of the node, in their order.\<close>

fun writeBuses :: "AudioNodeOutput list \<Rightarrow> AudioBus list \<Rightarrow> AudioNodeOutput list" where
  "writeBuses [] bs = []"
| "writeBuses outs [] = outs"
| "writeBuses (out # outs) (b # bs) = out\<lparr>out_bus := b\<rparr> # writeBuses outs bs"

definition process :: "Overrides \<Rightarrow> nat \<Rightarrow> 64 word \<Rightarrow> World \<Rightarrow> World" where
  "process ov n framesToProcess w =
     logCalls [ProcessCall n framesToProcess]
       (updNode n (\<lambda>node. node\<lparr>m_outputs :=
          writeBuses (m_outputs node) (processOutputs ov n framesToProcess w)\<rparr>) w)"

text \<open>The time that \<^verbatim>\<open>processIfNecessary\<close> stores as the last non-silent time:
  \<^verbatim>\<open>(ac->currentSampleFrame() + framesToProcess) / static_cast<double>(m_sampleRate)\<close>, the
  sum in \<^verbatim>\<open>size_t\<close>, then converted to a double and divided.\<close>

definition endOfQuantum :: "Overrides \<Rightarrow> AudioContext \<Rightarrow> 64 word \<Rightarrow> AudioNode \<Rightarrow> double" where
  "endOfQuantum ov ac framesToProcess node =
     rounded ov (ddiv (rounded ov (Fin (real (unat (m_currentSampleFrame ac + framesToProcess)))))
                      (m_sampleRate node))"

text \<open>The statements of \<^verbatim>\<open>AudioNode::processIfNecessary\<close> that follow the call of
  \<^verbatim>\<open>pullInputs\<close>.\<close>

definition processOrSilence ::
  "Overrides \<Rightarrow> AudioContext \<Rightarrow> 64 word \<Rightarrow> nat \<Rightarrow> World \<Rightarrow> World option" where
  "processOrSilence ov ac framesToProcess n w =
     (let silentInputs = inputsAreSilent (nodes w n);
          w' = (if \<not> silentInputs then
                  updNode n (\<lambda>node. node\<lparr>m_lastNonSilentTime :=
                    endOfQuantum ov ac framesToProcess node\<rparr>) w
                else w)
      in case propagatesSilence ov n w' of
           None \<Rightarrow> None
         | Some ps \<Rightarrow>
             if silentInputs \<and> ps then Some (silenceOutputs n w')
             else Some (unsilenceOutputs n (process ov n framesToProcess w')))"

text \<open>The body of \<^verbatim>\<open>AudioNode::processIfNecessary\<close>. The function is called again, through
  \<^verbatim>\<open>pullInputs\<close>, for the nodes upstream; these calls are the parameter \<open>rec\<close>.\<close>

definition processIfNecessaryBody ::
  "Overrides \<Rightarrow> (nat \<Rightarrow> World \<Rightarrow> World option) \<Rightarrow> 64 word \<Rightarrow> nat \<Rightarrow> World \<Rightarrow> World option" where
  "processIfNecessaryBody ov rec framesToProcess n w =
     (case contexts w (m_context (nodes w n)) of
        None \<Rightarrow> Some w
      | Some ac \<Rightarrow>
          if \<not> m_isInitialized (nodes w n) then Some w
          else
            (let currentTime = currentTime ac in
             if dne (m_lastProcessingTime (nodes w n)) currentTime then
               (case pullInputs ov rec n
                       (updNode n (\<lambda>node. node\<lparr>m_lastProcessingTime := currentTime\<rparr>) w) of
                  None \<Rightarrow> None
                | Some w' \<Rightarrow> processOrSilence ov ac framesToProcess n w')
             else Some w))"

text \<open>The calls of \<^verbatim>\<open>processIfNecessary\<close> that a call makes through \<^verbatim>\<open>pullInputs\<close>,
  nested at most to the given depth; \<open>None\<close> is a call that needs a deeper nesting.\<close>

primrec upstreamCalls :: "Overrides \<Rightarrow> nat \<Rightarrow> 64 word \<Rightarrow> nat \<Rightarrow> World \<Rightarrow> World option" where
  "upstreamCalls ov 0 framesToProcess = (\<lambda>n w. None)"
| "upstreamCalls ov (Suc depth) framesToProcess =
     processIfNecessaryBody ov (upstreamCalls ov depth framesToProcess) framesToProcess"

text \<open>\<^verbatim>\<open>AudioNode::processIfNecessary\<close>, with the bound on the depth of its nested calls.\<close>

definition processIfNecessary :: "Overrides \<Rightarrow> nat \<Rightarrow> 64 word \<Rightarrow> nat \<Rightarrow> World \<Rightarrow> World option" where
  "processIfNecessary ov depth framesToProcess =
     processIfNecessaryBody ov (upstreamCalls ov depth framesToProcess) framesToProcess"

text \<open>How often \<^verbatim>\<open>process\<close> of a node has been invoked.\<close>

fun isProcessCallOf :: "nat \<Rightarrow> Call \<Rightarrow> bool" where
  "isProcessCallOf n (ProcessCall m k) = (m = n)"
| "isProcessCallOf n c = False"

definition processCount :: "nat \<Rightarrow> World \<Rightarrow> nat" where
  "processCount n w = length (filter (isProcessCallOf n) (calls w))"

section \<open>Predicates and example data for the properties\<close>

text \<open>A finite value within the closed interval from \<open>lo\<close> to \<open>hi\<close>.\<close>

definition inInterval :: "real \<Rightarrow> real \<Rightarrow> double \<Rightarrow> bool" where
  "inInterval lo hi a = (case a of Fin r \<Rightarrow> lo \<le> r \<and> r \<le> hi | _ \<Rightarrow> False)"

definition zeroOrNaN :: "double \<Rightarrow> bool" where
  "zeroOrNaN a = (a = Fin 0 \<or> a = NaN)"

text \<open>A listener at rest at the origin, and panner nodes with or without a velocity, at
  the listener or away from it.\<close>

definition listenerAtOrigin :: AudioListener where
  "listenerAtOrigin =
     \<lparr>position = FloatPoint3D 0 0 0, orientation = FloatPoint3D 0 0 (- 1),
      upVector = FloatPoint3D 0 1 0, velocity = FloatPoint3D 0 0 0,
      dopplerFactor = Fin 1, speedOfSound = Fin 343.3\<rparr>"

definition pannerAt :: "FloatPoint3D \<Rightarrow> FloatPoint3D \<Rightarrow> PannerNode" where
  "pannerAt pos vel =
     \<lparr>m_position = pos, m_orientation = FloatPoint3D 1 0 0, m_velocity = vel,
      m_panningModel = HRTF, m_panner = None, pannersCreated = 0\<rparr>"

text \<open>What the rendering functions keep of a store, seen from one node: the contexts and
  the context of the node. The clock of a node is usable when the current time of its
  context is a number; a node is pending while its last processing time differs from that
  time.\<close>

definition sameClock :: "nat \<Rightarrow> World \<Rightarrow> World \<Rightarrow> bool" where
  "sameClock m w w' = (contexts w' = contexts w \<and> m_context (nodes w' m) = m_context (nodes w m))"

definition clockOK :: "nat \<Rightarrow> World \<Rightarrow> bool" where
  "clockOK m w =
     (case contexts w (m_context (nodes w m)) of
        None \<Rightarrow> True
      | Some ac \<Rightarrow> \<not> isnan (currentTime ac))"

definition pending :: "nat \<Rightarrow> World \<Rightarrow> nat" where
  "pending m w =
     (case contexts w (m_context (nodes w m)) of
        None \<Rightarrow> 0
      | Some ac \<Rightarrow> if dne (m_lastProcessingTime (nodes w m)) (currentTime ac) then 1 else 0)"

text \<open>The relation between the stores before and after a rendering step that the
  memoization maintains for a node: the count of its \<^verbatim>\<open>process\<close> calls does not fall, and
  together with the pending mark it does not rise.\<close>

definition atMostOnce :: "nat \<Rightarrow> World \<Rightarrow> World \<Rightarrow> bool" where
  "atMostOnce m w w' =
     (sameClock m w w' \<and> processCount m w \<le> processCount m w' \<and>
      (clockOK m w \<longrightarrow> processCount m w' + pending m w' \<le> processCount m w + pending m w))"



text \<open>What a call of \<^verbatim>\<open>connect\<close> leaves behind: the exception code and the connection
  count of a context.\<close>

definition codeAfter :: "(ExceptionCode \<times> World) option \<Rightarrow> ExceptionCode option" where
  "codeAfter r = map_option fst r"

definition connectionCountAfter :: "nat \<Rightarrow> (ExceptionCode \<times> World) option \<Rightarrow> 32 word option" where
  "connectionCountAfter c r =
     (case r of None \<Rightarrow> None | Some s \<Rightarrow> map_option m_connectionCount (contexts (snd s) c))"

text \<open>Example data: buses, ports, a node as its constructor leaves it (initialised, in
  context 0), a context at sample frame 128, and overrides with a given tail time and
  results that need no rounding.\<close>

definition quietBus :: AudioBus where
  "quietBus = \<lparr>busSamples = [Fin 0, Fin 0], busSilent = True\<rparr>"

definition loudBus :: AudioBus where
  "loudBus = \<lparr>busSamples = [Fin 1, Fin 2], busSilent = False\<rparr>"

definition inputFrom :: "(nat \<times> nat) list \<Rightarrow> AudioNodeInput" where
  "inputFrom cs = \<lparr>in_outputs = cs, in_renderingOutputs = cs, in_bus = quietBus\<rparr>"

definition freeOutput :: AudioNodeOutput where
  "freeOutput = \<lparr>out_inputs = [], out_params = [], out_bus = loudBus\<rparr>"

definition freshNode :: "AudioNodeInput list \<Rightarrow> AudioNodeOutput list \<Rightarrow> AudioNode" where
  "freshNode ins outs =
     \<lparr>m_isInitialized = True, m_nodeType = NodeTypeUnknown, m_context = 0,
      m_sampleRate = Fin 44100, m_lastProcessingTime = Fin (- 1), m_lastNonSilentTime = Fin (- 1),
      m_normalRefCount = 1, m_connectionRefCount = 0, m_isMarkedForDeletion = False,
      m_isDisabled = False, m_inputs = ins, m_outputs = outs\<rparr>"

definition runningContext :: AudioContext where
  "runningContext = \<lparr>currentTime = Fin (128 / 44100), m_currentSampleFrame = 128,
     m_connectionCount = 0, m_nodesMarkedForDeletion = []\<rparr>"

definition overridesWithTail :: "real \<Rightarrow> Overrides" where
  "overridesWithTail t =
     \<lparr>processOutputs = (\<lambda>n frames w. [loudBus]), latencyTime = (\<lambda>n w. Fin 0),
      tailTime = (\<lambda>n w. Fin t),
      mixBuses = (\<lambda>bs. if list_all busSilent bs then quietBus else loudBus),
      roundDouble = Fin\<rparr>"

text \<open>A store with the given node 0, and one with the given nodes 0 and 1; context 0 is
  alive, every other context has expired.\<close>

definition worldOf :: "(nat \<Rightarrow> AudioNode) \<Rightarrow> World" where
  "worldOf ns = \<lparr>nodes = ns, contexts = (\<lambda>_. None)(0 \<mapsto> runningContext),
     params = (\<lambda>_. \<lparr>param_context = 0, param_outputs = []\<rparr>), calls = []\<rparr>"

definition oneNode :: "AudioNode \<Rightarrow> World" where
  "oneNode node = worldOf ((\<lambda>_. freshNode [] [])(0 := node))"

definition twoNodes :: "AudioNode \<Rightarrow> AudioNode \<Rightarrow> World" where
  "twoNodes a b = worldOf ((\<lambda>_. freshNode [] [])(0 := a, 1 := b))"

text \<open>The fan-out of the spec's first scenario: the source 0 feeds the nodes 1 and 2,
  which both feed the one input of the destination 3.\<close>

definition fanOutWorld :: World where
  "fanOutWorld = worldOf ((\<lambda>_. freshNode [] [])
     (0 := freshNode [] [freeOutput],
      1 := freshNode [inputFrom [(0, 0)]] [freeOutput],
      2 := freshNode [inputFrom [(0, 0)]] [freeOutput],
      3 := freshNode [inputFrom [(1, 0), (2, 0)]] [freeOutput]))"

text \<open>A node with two outputs that holds the given number of connection references, and
  a node whose last processing time is the current time of the running context.\<close>

definition connectedNode :: "int \<Rightarrow> AudioNode" where
  "connectedNode k = (freshNode [] [freeOutput, freeOutput])\<lparr>m_connectionRefCount := k\<rparr>"

definition processedNode :: AudioNode where
  "processedNode = (freshNode [] [freeOutput])\<lparr>m_lastProcessingTime := currentTime runningContext\<rparr>"

text \<open>A node whose context has expired and a node that is not initialised.\<close>

definition orphanNode :: AudioNode where
  "orphanNode = (freshNode [inputFrom [(0, 0)]] [freeOutput])\<lparr>m_context := 1\<rparr>"

definition uninitializedNode :: AudioNode where
  "uninitializedNode = (freshNode [inputFrom [(0, 0)]] [freeOutput])\<lparr>m_isInitialized := False\<rparr>"




text \<open>
  For the depth of the nested calls: a finite set of nodes that contains, with each node,
  the nodes its inputs render from; contexts whose current time is a number; the nodes of
  the set that a call of \<open>processIfNecessary\<close> would still process; and what the rendering
  functions keep of every node.
\<close>

definition renderClosed :: "nat set \<Rightarrow> World \<Rightarrow> bool" where
  "renderClosed K w =
     (finite K \<and>
      (\<forall>k \<in> K. \<forall>inp \<in> set (m_inputs (nodes w k)). \<forall>cn \<in> set (in_renderingOutputs inp). fst cn \<in> K))"

definition clocksOK :: "World \<Rightarrow> bool" where
  "clocksOK w = (\<forall>c ac. contexts w c = Some ac \<longrightarrow> \<not> isnan (currentTime ac))"

definition isPending :: "nat \<Rightarrow> World \<Rightarrow> bool" where
  "isPending k w =
     (case contexts w (m_context (nodes w k)) of
        None \<Rightarrow> False
      | Some ac \<Rightarrow>
          m_isInitialized (nodes w k) \<and> dne (m_lastProcessingTime (nodes w k)) (currentTime ac))"

definition pendingIn :: "nat set \<Rightarrow> World \<Rightarrow> nat set" where
  "pendingIn K w = {k \<in> K. isPending k w}"

definition keepsGraph :: "World \<Rightarrow> World \<Rightarrow> bool" where
  "keepsGraph w w' =
     (contexts w' = contexts w \<and>
      (\<forall>k. m_context (nodes w' k) = m_context (nodes w k) \<and>
           m_isInitialized (nodes w' k) = m_isInitialized (nodes w k) \<and>
           map in_renderingOutputs (m_inputs (nodes w' k))
             = map in_renderingOutputs (m_inputs (nodes w k)) \<and>
           (isPending k w' \<longrightarrow> isPending k w)))"

definition readyFor :: "nat set \<Rightarrow> nat \<Rightarrow> World \<Rightarrow> bool" where
  "readyFor K d w = (renderClosed K w \<and> clocksOK w \<and> card (pendingIn K w) \<le> d)"

text \<open>The callee of the nested calls returns for every node of the set, from every store
  that is ready, and keeps the graph.\<close>

definition returnsOn :: "nat set \<Rightarrow> nat \<Rightarrow> (nat \<Rightarrow> World \<Rightarrow> World option) \<Rightarrow> bool" where
  "returnsOn K d rec =
     (\<forall>k v. k \<in> K \<longrightarrow> readyFor K d v \<longrightarrow> (\<exists>v'. rec k v = Some v' \<and> keepsGraph v v'))"

section \<open>Properties\<close>

subsection \<open>Floating-point values and vectors\<close>

lemma dadd_NaN_right: "dadd a NaN = NaN"
  by (cases a) simp_all

lemma dmul_NaN_right: "dmul a NaN = NaN"
  by (cases a) simp_all

lemma dlt_NaN_right: "dlt a NaN = False"
  by (cases a) simp_all

lemma deq_refl: "\<not> isnan a \<Longrightarrow> deq a a"
  by (simp add: deq_def)

lemma zeroOrNaN_mul: "zeroOrNaN (dmul (Fin 0) b)"
  by (cases b) (simp_all add: zeroOrNaN_def)

lemma zeroOrNaN_add: "zeroOrNaN a \<Longrightarrow> zeroOrNaN b \<Longrightarrow> zeroOrNaN (dadd a b)"
  by (auto simp: zeroOrNaN_def dadd_NaN_right)

lemma zeroOrNaN_div: "zeroOrNaN a \<Longrightarrow> ddiv a (Fin 0) = NaN"
  by (auto simp: zeroOrNaN_def)

lemma isZero_components: "isZero v \<Longrightarrow> m_x v = Fin 0 \<and> m_y v = Fin 0 \<and> m_z v = Fin 0"
  by (simp add: isZero_def deq_def)

lemma isZero_dot: "isZero v \<Longrightarrow> zeroOrNaN (dot v u)"
  by (simp add: dot_def isZero_components zeroOrNaN_add zeroOrNaN_mul)

lemma isZero_vlength: "isZero v \<Longrightarrow> vlength v = Fin 0"
  by (simp add: vlength_def dot_def isZero_components)

lemma isZero_vsub_self: "isZero (vsub (FloatPoint3D a b c) (FloatPoint3D a b c))"
  by (simp add: isZero_def vsub_def dsub_def FloatPoint3D_def deq_def)

lemma isZero_FloatPoint3D: "isZero (FloatPoint3D a b c) = (a = 0 \<and> b = 0 \<and> c = 0)"
  by (simp add: isZero_def FloatPoint3D_def deq_def)

subsection \<open>The Doppler rate\<close>

text \<open>With source and listener at the same point both projections are \<open>0/0\<close>.\<close>

lemma projection_NaN: "isZero v \<Longrightarrow> dmin (dneg (ddiv (dot v u) (vlength v))) s = NaN"
  by (simp add: isZero_vlength zeroOrNaN_div [OF isZero_dot] dmin_def dlt_NaN_right)

lemma dopplerQuotient_zero_distance:
  "isZero (vsub (m_position p) (position l)) \<Longrightarrow> dopplerQuotient l p = NaN"
  by (simp add: dopplerQuotient_def Let_def projection_NaN dmul_NaN_right dsub_def dadd_NaN_right)

lemma limitShift_fixNANs_range: "inInterval 0.125 16 (limitShift (fixNANs a))"
  by (cases a) (simp_all add: limitShift_def fixNANs_def dgt_def inInterval_def)

lemma limitShift_fixNANs_special: "isnan a \<or> isinf a \<Longrightarrow> limitShift (fixNANs a) = Fin 0.125"
  by (simp add: limitShift_def fixNANs_def dgt_def)

text \<open>
  C4, as the code has it: \<open>dopplerRate\<close> returns 1 when the doppler factor is at most 0
  and when both velocities are zero. Otherwise a NaN or infinite shift is replaced by 0 and
  then raised to the lower limit, so that the rate is 0.125; this is the case whenever the
  source is at the position of the listener. Every returned value lies in \<open>[0.125, 16]\<close>.
\<close>

theorem dopplerRate_contract:
  "(dle (dopplerFactor l) (Fin 0) \<longrightarrow> dopplerRate l p = Fin 1) \<and>
   (isZero (m_velocity p) \<and> isZero (velocity l) \<longrightarrow> dopplerRate l p = Fin 1) \<and>
   (dgt (dopplerFactor l) (Fin 0) \<and> (\<not> isZero (m_velocity p) \<or> \<not> isZero (velocity l)) \<and>
    (isnan (dopplerQuotient l p) \<or> isinf (dopplerQuotient l p)
       \<or> isZero (vsub (m_position p) (position l)))
      \<longrightarrow> dopplerRate l p = Fin 0.125) \<and>
   inInterval 0.125 16 (dopplerRate l p)"
proof (intro conjI impI)
  assume "dle (dopplerFactor l) (Fin 0)"
  then have "\<not> dgt (dopplerFactor l) (Fin 0)"
    by (cases "dopplerFactor l") (auto simp: dle_def dgt_def deq_def)
  then show "dopplerRate l p = Fin 1" by (simp add: dopplerRate_def)
next
  assume "isZero (m_velocity p) \<and> isZero (velocity l)"
  then show "dopplerRate l p = Fin 1" by (simp add: dopplerRate_def Let_def)
next
  assume a: "dgt (dopplerFactor l) (Fin 0) \<and> (\<not> isZero (m_velocity p) \<or> \<not> isZero (velocity l)) \<and>
    (isnan (dopplerQuotient l p) \<or> isinf (dopplerQuotient l p)
       \<or> isZero (vsub (m_position p) (position l)))"
  then have "isnan (dopplerQuotient l p) \<or> isinf (dopplerQuotient l p)"
    by (auto simp: dopplerQuotient_zero_distance)
  then have "limitShift (fixNANs (dopplerQuotient l p)) = Fin 0.125"
    by (rule limitShift_fixNANs_special)
  with a show "dopplerRate l p = Fin 0.125" by (auto simp: dopplerRate_def Let_def)
next
  show "inInterval 0.125 16 (dopplerRate l p)"
    using limitShift_fixNANs_range [of "dopplerQuotient l p"]
    by (simp add: dopplerRate_def Let_def inInterval_def)
qed

theorem dopplerRate_contract_witness:
  "dopplerRate (listenerAtOrigin\<lparr>dopplerFactor := Fin 0\<rparr>)
     (pannerAt (FloatPoint3D 1 0 0) (FloatPoint3D 1 0 0)) = Fin 1 \<and>
   dopplerRate listenerAtOrigin (pannerAt (FloatPoint3D 1 0 0) (FloatPoint3D 0 0 0)) = Fin 1 \<and>
   dopplerRate listenerAtOrigin (pannerAt (FloatPoint3D 0 0 0) (FloatPoint3D 0 2 0)) = Fin 0.125 \<and>
   inInterval 0.125 16 (dopplerRate listenerAtOrigin (pannerAt (FloatPoint3D 0 0 0) (FloatPoint3D 0 2 0)))"
  using dopplerRate_contract [of "listenerAtOrigin\<lparr>dopplerFactor := Fin 0\<rparr>"
          "pannerAt (FloatPoint3D 1 0 0) (FloatPoint3D 1 0 0)"]
        dopplerRate_contract [of listenerAtOrigin "pannerAt (FloatPoint3D 1 0 0) (FloatPoint3D 0 0 0)"]
        dopplerRate_contract [of listenerAtOrigin "pannerAt (FloatPoint3D 0 0 0) (FloatPoint3D 0 2 0)"]
  by (simp add: listenerAtOrigin_def pannerAt_def isZero_FloatPoint3D isZero_vsub_self
        dle_def dgt_def deq_def inInterval_def)

text \<open>
  C4, as the claim has it, fails: with the source at the position of the listener, a
  velocity of the source and a positive doppler factor, the distance is zero, the shift is
  NaN, and the rate is 0.125, not 1.
\<close>

theorem dopplerRate_counterexample:
  "vlength (vsub (m_position (pannerAt (FloatPoint3D 0 0 0) (FloatPoint3D 1 0 0)))
                 (position listenerAtOrigin)) = Fin 0 \<and>
   isnan (dopplerQuotient listenerAtOrigin (pannerAt (FloatPoint3D 0 0 0) (FloatPoint3D 1 0 0))) \<and>
   dopplerRate listenerAtOrigin (pannerAt (FloatPoint3D 0 0 0) (FloatPoint3D 1 0 0)) = Fin 0.125 \<and>
   dopplerRate listenerAtOrigin (pannerAt (FloatPoint3D 0 0 0) (FloatPoint3D 1 0 0)) \<noteq> Fin 1"
proof -
  have z: "isZero (vsub (m_position (pannerAt (FloatPoint3D 0 0 0) (FloatPoint3D 1 0 0)))
                        (position listenerAtOrigin))"
    by (simp add: pannerAt_def listenerAtOrigin_def isZero_vsub_self)
  have q: "dopplerQuotient listenerAtOrigin (pannerAt (FloatPoint3D 0 0 0) (FloatPoint3D 1 0 0)) = NaN"
    using z by (rule dopplerQuotient_zero_distance)
  have v: "\<not> isZero (m_velocity (pannerAt (FloatPoint3D 0 0 0) (FloatPoint3D 1 0 0)))"
    by (simp add: pannerAt_def isZero_FloatPoint3D)
  have f: "dgt (dopplerFactor listenerAtOrigin) (Fin 0)"
    by (simp add: listenerAtOrigin_def dgt_def)
  have r: "dopplerRate listenerAtOrigin (pannerAt (FloatPoint3D 0 0 0) (FloatPoint3D 1 0 0)) = Fin 0.125"
    using v f by (simp add: dopplerRate_def q fixNANs_def limitShift_def dgt_def)
  show ?thesis using z q r by (simp add: isZero_vlength)
qed

subsection \<open>Azimuth and elevation\<close>

text \<open>
  C8: when the source-listener vector is zero, as it is when source and listener are at
  the same (finite) point, \<open>getAzimuthElevation\<close> returns azimuth 0 and elevation 0.
\<close>

theorem getAzimuthElevation_degenerate:
  "(isZero (vsub (m_position p) (position l)) \<longrightarrow> getAzimuthElevation l p = (Fin 0, Fin 0)) \<and>
   (m_position p = FloatPoint3D a b c \<and> position l = FloatPoint3D a b c
      \<longrightarrow> getAzimuthElevation l p = (Fin 0, Fin 0))"
  by (simp add: getAzimuthElevation_def Let_def isZero_vsub_self)

theorem getAzimuthElevation_degenerate_witness:
  "getAzimuthElevation (listenerAtOrigin\<lparr>position := FloatPoint3D 1 2 3\<rparr>)
     (pannerAt (FloatPoint3D 1 2 3) (FloatPoint3D 0 0 0)) = (Fin 0, Fin 0)"
  using getAzimuthElevation_degenerate [of "pannerAt (FloatPoint3D 1 2 3) (FloatPoint3D 0 0 0)"
          "listenerAtOrigin\<lparr>position := FloatPoint3D 1 2 3\<rparr>" 1 2 3]
  by (simp add: pannerAt_def listenerAtOrigin_def)

subsection \<open>The panning model\<close>

text \<open>
  C7: \<open>setPanningModel\<close> accepts EQUALPOWER = 0 and HRTF = 1: it writes no error, stores
  the model and leaves a panner in place. SOUNDFIELD = 2 and every other value give
  \<open>NOT_SUPPORTED_ERR\<close> and change nothing. A second call with the same accepted value
  changes nothing: neither the stored model, nor the panner, nor the number of panners
  allocated.
\<close>

theorem setPanningModel_contract:
  "EQUALPOWER = 0 \<and> HRTF = 1 \<and> SOUNDFIELD = 2 \<and>
   (model = EQUALPOWER \<or> model = HRTF \<longrightarrow>
      fst (setPanningModel model (ec, p)) = ec \<and>
      m_panningModel (snd (setPanningModel model (ec, p))) = model \<and>
      m_panner (snd (setPanningModel model (ec, p))) \<noteq> None \<and>
      setPanningModel model (setPanningModel model (ec, p)) = setPanningModel model (ec, p)) \<and>
   (model \<noteq> EQUALPOWER \<and> model \<noteq> HRTF \<longrightarrow>
      setPanningModel model (ec, p) = (NOT_SUPPORTED_ERR, p)) \<and>
   setPanningModel SOUNDFIELD (ec, p) = (NOT_SUPPORTED_ERR, p)"
  by (auto simp: setPanningModel_def Panner_create_def EQUALPOWER_def HRTF_def SOUNDFIELD_def)

theorem setPanningModel_contract_witness:
  "m_panningModel (snd (setPanningModel 0 (NO_ERR, pannerAt (FloatPoint3D 0 0 0) (FloatPoint3D 0 0 0)))) = 0 \<and>
   pannersCreated (snd (setPanningModel 0
      (setPanningModel 0 (NO_ERR, pannerAt (FloatPoint3D 0 0 0) (FloatPoint3D 0 0 0))))) = 1 \<and>
   setPanningModel 7 (NO_ERR, pannerAt (FloatPoint3D 0 0 0) (FloatPoint3D 0 0 0))
     = (NOT_SUPPORTED_ERR, pannerAt (FloatPoint3D 0 0 0) (FloatPoint3D 0 0 0))"
  using setPanningModel_contract [of 0 NO_ERR "pannerAt (FloatPoint3D 0 0 0) (FloatPoint3D 0 0 0)"]
        setPanningModel_contract [of 7 NO_ERR "pannerAt (FloatPoint3D 0 0 0) (FloatPoint3D 0 0 0)"]
  by (simp add: EQUALPOWER_def HRTF_def)
     (simp add: setPanningModel_def Panner_create_def pannerAt_def EQUALPOWER_def HRTF_def)

subsection \<open>The store\<close>

lemma nodes_updNode: "nodes (updNode n f w) k = (if k = n then f (nodes w n) else nodes w k)"
  by (simp add: updNode_def)

lemma contexts_updNode: "contexts (updNode n f w) = contexts w"
  by (simp add: updNode_def)

lemma calls_updNode: "calls (updNode n f w) = calls w"
  by (simp add: updNode_def)

lemma params_updNode: "params (updNode n f w) = params w"
  by (simp add: updNode_def)

lemma nodes_logCalls: "nodes (logCalls cs w) = nodes w"
  by (simp add: logCalls_def)

lemma contexts_logCalls: "contexts (logCalls cs w) = contexts w"
  by (simp add: logCalls_def)

lemma calls_logCalls: "calls (logCalls cs w) = calls w @ cs"
  by (simp add: logCalls_def)

lemmas store_simps =
  nodes_updNode contexts_updNode calls_updNode params_updNode
  nodes_logCalls contexts_logCalls calls_logCalls

lemmas example_defs =
  quietBus_def loudBus_def inputFrom_def freeOutput_def freshNode_def runningContext_def
  overridesWithTail_def worldOf_def oneNode_def twoNodes_def fanOutWorld_def

subsection \<open>Port accessors\<close>

text \<open>
  C9: \<open>input(i)\<close> is the \<open>i\<close>-th input when \<open>i\<close> is less than the number of inputs and the
  null pointer otherwise, and likewise \<open>output(i)\<close>; the accessors are total.
\<close>

theorem port_accessors_total:
  "(unat i < numberOfInputs node \<longrightarrow> AudioNode_input node i = Some (m_inputs node ! unat i)) \<and>
   (numberOfInputs node \<le> unat i \<longrightarrow> AudioNode_input node i = None) \<and>
   (unat i < numberOfOutputs node \<longrightarrow> AudioNode_output node i = Some (m_outputs node ! unat i)) \<and>
   (numberOfOutputs node \<le> unat i \<longrightarrow> AudioNode_output node i = None)"
  by (simp add: AudioNode_input_def AudioNode_output_def numberOfInputs_def numberOfOutputs_def)

theorem port_accessors_total_witness:
  "AudioNode_input (freshNode [inputFrom []] [freeOutput]) 0 = Some (inputFrom []) \<and>
   AudioNode_input (freshNode [inputFrom []] [freeOutput]) 1 = None \<and>
   AudioNode_output (freshNode [inputFrom []] [freeOutput]) 0 = Some freeOutput \<and>
   AudioNode_output (freshNode [inputFrom []] [freeOutput]) 4294967295 = None"
  using port_accessors_total [of 0 "freshNode [inputFrom []] [freeOutput]"]
        port_accessors_total [of 1 "freshNode [inputFrom []] [freeOutput]"]
        port_accessors_total [of 4294967295 "freshNode [inputFrom []] [freeOutput]"]
  by (simp add: numberOfInputs_def numberOfOutputs_def freshNode_def)

subsection \<open>Connecting\<close>

lemma ref_frame:
  "contexts (ref t n w) = contexts w"
  "m_inputs (nodes (ref t n w) k) = m_inputs (nodes w k)"
  "m_outputs (nodes (ref t n w) k) = m_outputs (nodes w k)"
  by (cases t; simp add: ref_def enableOutputsIfNecessary_def store_simps)+

lemma AudioNodeInput_connect_registers:
  assumes "j < numberOfOutputs (nodes w this)" and "i < numberOfInputs (nodes w d)"
  shows "(this, j) \<in> set (in_outputs (m_inputs (nodes (AudioNodeInput_connect (d, i) (this, j) w) d) ! i))"
    and "(d, i) \<in> set (out_inputs (m_outputs (nodes (AudioNodeInput_connect (d, i) (this, j) w) this) ! j))"
    and "contexts (AudioNodeInput_connect (d, i) (this, j) w) = contexts w"
  using assms
  by (auto simp add: AudioNodeInput_connect_def Let_def ref_frame updInput_def updOutput_def
        store_simps numberOfOutputs_def numberOfInputs_def)

lemma lockContext_Some: "lockContext w c = Some c' \<Longrightarrow> c' = c \<and> (\<exists>ac. contexts w c = Some ac)"
  by (auto simp: lockContext_def split: option.splits)

text \<open>
  C2: \<open>connect\<close> sets \<open>SYNTAX_ERR\<close> for a null destination and for a destination of
  another context, \<open>INDEX_SIZE_ERR\<close> for an output or input index out of range (checked
  before the context of the destination), and leaves the store as it was in each of these
  cases. Otherwise it writes no error, the output is among the outputs connected to the
  input and the input among the inputs connected to the output, and the connection count
  of the context is one more than before.
\<close>

theorem connect_contract:
  assumes live: "lockContext w (m_context (nodes w this)) = Some c"
  shows
   "connect this None outputIndex inputIndex (ec, w) = Some (SYNTAX_ERR, w) \<and>
    (numberOfOutputs (nodes w this) \<le> unat outputIndex \<or>
     numberOfInputs (nodes w dest) \<le> unat inputIndex
       \<longrightarrow> connect this (Some dest) outputIndex inputIndex (ec, w) = Some (INDEX_SIZE_ERR, w)) \<and>
    (unat outputIndex < numberOfOutputs (nodes w this) \<and>
     unat inputIndex < numberOfInputs (nodes w dest) \<and>
     lockContext w (m_context (nodes w dest)) \<noteq> Some c
       \<longrightarrow> connect this (Some dest) outputIndex inputIndex (ec, w) = Some (SYNTAX_ERR, w)) \<and>
    (unat outputIndex < numberOfOutputs (nodes w this) \<and>
     unat inputIndex < numberOfInputs (nodes w dest) \<and>
     lockContext w (m_context (nodes w dest)) = Some c
       \<longrightarrow> (\<exists>w' ac. connect this (Some dest) outputIndex inputIndex (ec, w) = Some (ec, w') \<and>
             (this, unat outputIndex)
               \<in> set (in_outputs (m_inputs (nodes w' dest) ! unat inputIndex)) \<and>
             (dest, unat inputIndex)
               \<in> set (out_inputs (m_outputs (nodes w' this) ! unat outputIndex)) \<and>
             contexts w c = Some ac \<and>
             contexts w' = (contexts w)(c \<mapsto> ac\<lparr>m_connectionCount := m_connectionCount ac + 1\<rparr>)))"
proof (intro conjI impI)
  show "connect this None outputIndex inputIndex (ec, w) = Some (SYNTAX_ERR, w)"
    using live by (simp add: connect_def)
next
  assume "numberOfOutputs (nodes w this) \<le> unat outputIndex \<or>
          numberOfInputs (nodes w dest) \<le> unat inputIndex"
  then show "connect this (Some dest) outputIndex inputIndex (ec, w) = Some (INDEX_SIZE_ERR, w)"
    using live by (auto simp: connect_def)
next
  assume "unat outputIndex < numberOfOutputs (nodes w this) \<and>
          unat inputIndex < numberOfInputs (nodes w dest) \<and>
          lockContext w (m_context (nodes w dest)) \<noteq> Some c"
  then show "connect this (Some dest) outputIndex inputIndex (ec, w) = Some (SYNTAX_ERR, w)"
    using live by (auto simp: connect_def)
next
  assume ok: "unat outputIndex < numberOfOutputs (nodes w this) \<and>
              unat inputIndex < numberOfInputs (nodes w dest) \<and>
              lockContext w (m_context (nodes w dest)) = Some c"
  define v where "v = AudioNodeInput_connect (dest, unat inputIndex) (this, unat outputIndex) w"
  from live obtain ac where ac: "contexts w c = Some ac"
    by (auto dest: lockContext_Some)
  note reg = AudioNodeInput_connect_registers [of "unat outputIndex" w this "unat inputIndex" dest,
      folded v_def]
  have "connect this (Some dest) outputIndex inputIndex (ec, w)
          = Some (ec, incrementConnectionCount c v)"
    using live ok by (simp add: connect_def v_def)
  moreover have "nodes (incrementConnectionCount c v) = nodes v"
    by (simp add: incrementConnectionCount_def split: option.splits)
  moreover have "contexts (incrementConnectionCount c v)
                   = (contexts w)(c \<mapsto> ac\<lparr>m_connectionCount := m_connectionCount ac + 1\<rparr>)"
    using ok ac by (simp add: incrementConnectionCount_def reg(3))
  ultimately show "\<exists>w' ac. connect this (Some dest) outputIndex inputIndex (ec, w) = Some (ec, w') \<and>
             (this, unat outputIndex)
               \<in> set (in_outputs (m_inputs (nodes w' dest) ! unat inputIndex)) \<and>
             (dest, unat inputIndex)
               \<in> set (out_inputs (m_outputs (nodes w' this) ! unat outputIndex)) \<and>
             contexts w c = Some ac \<and>
             contexts w' = (contexts w)(c \<mapsto> ac\<lparr>m_connectionCount := m_connectionCount ac + 1\<rparr>)"
    using ok ac reg(1,2) by auto
qed

theorem connect_contract_witness:
  "connect 0 None 0 0 (NO_ERR, twoNodes (freshNode [] [freeOutput]) (freshNode [inputFrom []] []))
     = Some (SYNTAX_ERR, twoNodes (freshNode [] [freeOutput]) (freshNode [inputFrom []] [])) \<and>
   connect 0 (Some 1) 0 1 (NO_ERR, twoNodes (freshNode [] [freeOutput]) (freshNode [inputFrom []] []))
     = Some (INDEX_SIZE_ERR, twoNodes (freshNode [] [freeOutput]) (freshNode [inputFrom []] [])) \<and>
   connect 0 (Some 1) 0 0 (NO_ERR, twoNodes (freshNode [] [freeOutput]) orphanNode)
     = Some (SYNTAX_ERR, twoNodes (freshNode [] [freeOutput]) orphanNode) \<and>
   connectionCountAfter 0
     (connect 0 (Some 1) 0 0 (NO_ERR, twoNodes (freshNode [] [freeOutput]) (freshNode [inputFrom []] [])))
     = Some 1"
  using connect_contract [where w = "twoNodes (freshNode [] [freeOutput]) (freshNode [inputFrom []] [])"
          and this = 0 and c = 0 and outputIndex = 0 and inputIndex = 1 and dest = 1 and ec = NO_ERR]
        connect_contract [where w = "twoNodes (freshNode [] [freeOutput]) orphanNode"
          and this = 0 and c = 0 and outputIndex = 0 and inputIndex = 0 and dest = 1 and ec = NO_ERR]
        connect_contract [where w = "twoNodes (freshNode [] [freeOutput]) (freshNode [inputFrom []] [])"
          and this = 0 and c = 0 and outputIndex = 0 and inputIndex = 0 and dest = 1 and ec = NO_ERR]
  by (auto simp: example_defs orphanNode_def lockContext_def numberOfOutputs_def numberOfInputs_def
        connectionCountAfter_def)

lemma AudioParam_connect_registers:
  assumes "j < numberOfOutputs (nodes w this)"
  shows "(this, j) \<in> set (param_outputs (params (AudioParam_connect pa (this, j) w) pa))"
    and "pa \<in> set (out_params (m_outputs (nodes (AudioParam_connect pa (this, j) w) this) ! j))"
    and "contexts (AudioParam_connect pa (this, j) w) = contexts w"
  using assms
  by (simp_all add: AudioParam_connect_def Let_def updOutput_def store_simps numberOfOutputs_def)

text \<open>
  C6, as the code has it: \<open>connect\<close> to a param sets \<open>SYNTAX_ERR\<close> for a null param and
  for a param of another context, \<open>INDEX_SIZE_ERR\<close> for an output index out of range, and
  leaves the store as it was in these cases. Otherwise it writes no error and registers
  the connection between the output and the param; the contexts, and with them the
  connection count, stay as they were.
\<close>

theorem connectParam_contract:
  assumes live: "lockContext w (m_context (nodes w this)) = Some c"
  shows
   "connectParam this None outputIndex (ec, w) = Some (SYNTAX_ERR, w) \<and>
    (numberOfOutputs (nodes w this) \<le> unat outputIndex
       \<longrightarrow> connectParam this (Some pa) outputIndex (ec, w) = Some (INDEX_SIZE_ERR, w)) \<and>
    (unat outputIndex < numberOfOutputs (nodes w this) \<and>
     lockContext w (param_context (params w pa)) \<noteq> Some c
       \<longrightarrow> connectParam this (Some pa) outputIndex (ec, w) = Some (SYNTAX_ERR, w)) \<and>
    (unat outputIndex < numberOfOutputs (nodes w this) \<and>
     lockContext w (param_context (params w pa)) = Some c
       \<longrightarrow> (\<exists>w'. connectParam this (Some pa) outputIndex (ec, w) = Some (ec, w') \<and>
             (this, unat outputIndex) \<in> set (param_outputs (params w' pa)) \<and>
             pa \<in> set (out_params (m_outputs (nodes w' this) ! unat outputIndex)) \<and>
             contexts w' = contexts w))"
proof (intro conjI impI)
  show "connectParam this None outputIndex (ec, w) = Some (SYNTAX_ERR, w)"
    using live by (simp add: connectParam_def)
next
  assume "numberOfOutputs (nodes w this) \<le> unat outputIndex"
  then show "connectParam this (Some pa) outputIndex (ec, w) = Some (INDEX_SIZE_ERR, w)"
    using live by (simp add: connectParam_def)
next
  assume "unat outputIndex < numberOfOutputs (nodes w this) \<and>
          lockContext w (param_context (params w pa)) \<noteq> Some c"
  then show "connectParam this (Some pa) outputIndex (ec, w) = Some (SYNTAX_ERR, w)"
    using live by (auto simp: connectParam_def)
next
  assume ok: "unat outputIndex < numberOfOutputs (nodes w this) \<and>
              lockContext w (param_context (params w pa)) = Some c"
  then have "connectParam this (Some pa) outputIndex (ec, w)
               = Some (ec, AudioParam_connect pa (this, unat outputIndex) w)"
    using live by (simp add: connectParam_def)
  with ok AudioParam_connect_registers [of "unat outputIndex" w this pa]
  show "\<exists>w'. connectParam this (Some pa) outputIndex (ec, w) = Some (ec, w') \<and>
             (this, unat outputIndex) \<in> set (param_outputs (params w' pa)) \<and>
             pa \<in> set (out_params (m_outputs (nodes w' this) ! unat outputIndex)) \<and>
             contexts w' = contexts w"
    by simp
qed

theorem connectParam_contract_witness:
  "connectParam 0 None 0 (NO_ERR, oneNode (freshNode [] [freeOutput]))
     = Some (SYNTAX_ERR, oneNode (freshNode [] [freeOutput])) \<and>
   connectParam 0 (Some 5) 1 (NO_ERR, oneNode (freshNode [] [freeOutput]))
     = Some (INDEX_SIZE_ERR, oneNode (freshNode [] [freeOutput])) \<and>
   codeAfter (connectParam 0 (Some 5) 0 (NO_ERR, oneNode (freshNode [] [freeOutput]))) = Some NO_ERR"
  using connectParam_contract [where w = "oneNode (freshNode [] [freeOutput])"
          and this = 0 and c = 0 and outputIndex = 1 and pa = 5 and ec = NO_ERR]
        connectParam_contract [where w = "oneNode (freshNode [] [freeOutput])"
          and this = 0 and c = 0 and outputIndex = 0 and pa = 5 and ec = NO_ERR]
  by (auto simp: example_defs lockContext_def numberOfOutputs_def codeAfter_def)

text \<open>
  C6, as the claim has it, fails: a successful \<open>connect\<close> to a param leaves the connection
  count of the context at 0, where a successful \<open>connect\<close> to a node raises it to 1.
\<close>

theorem connectParam_counterexample:
  "codeAfter (connectParam 0 (Some 5) 0
     (NO_ERR, twoNodes (freshNode [] [freeOutput]) (freshNode [inputFrom []] []))) = Some NO_ERR \<and>
   connectionCountAfter 0
     (Some (NO_ERR, twoNodes (freshNode [] [freeOutput]) (freshNode [inputFrom []] []))) = Some 0 \<and>
   connectionCountAfter 0 (connectParam 0 (Some 5) 0
     (NO_ERR, twoNodes (freshNode [] [freeOutput]) (freshNode [inputFrom []] []))) = Some 0 \<and>
   connectionCountAfter 0 (connect 0 (Some 1) 0 0
     (NO_ERR, twoNodes (freshNode [] [freeOutput]) (freshNode [inputFrom []] []))) = Some 1"
  by (simp add: codeAfter_def connectionCountAfter_def connectParam_def connect_def lockContext_def
        numberOfOutputs_def numberOfInputs_def AudioParam_connect_def AudioNodeInput_connect_def
        incrementConnectionCount_def ref_frame updOutput_def updInput_def store_simps Let_def
        example_defs)

subsection \<open>Dereferencing\<close>

lemma decrementRef_fields:
  assumes "decrementRef refType node = Some node'"
  shows "m_isMarkedForDeletion node' = m_isMarkedForDeletion node"
    and "m_outputs node' = m_outputs node"
    and "m_context node' = m_context node"
    and "m_connectionRefCount node'
           = m_connectionRefCount node - (if refType = RefTypeConnection then 1 else 0)"
    and "m_normalRefCount node' = m_normalRefCount node - (if refType = RefTypeNormal then 1 else 0)"
  using assms by (cases refType; auto simp: decrementRef_def split: if_splits)+

lemma markForDeletion_frame:
  "nodes (markForDeletion c n w) = nodes w"
  "calls (markForDeletion c n w) = calls w"
  by (simp_all add: markForDeletion_def split: option.splits)

text \<open>The last reference is gone.\<close>

lemma finishDeref_last:
  assumes "decrementRef refType (nodes w n) = Some node"
    and "m_connectionRefCount node = 0" and "m_normalRefCount node = 0"
  shows "finishDeref refType n w =
    (if m_isMarkedForDeletion node then Some (updNode n (\<lambda>_. node) w)
     else Some (updNode n (\<lambda>node. node\<lparr>m_isMarkedForDeletion := True\<rparr>)
            ((if contexts w (m_context (nodes w n)) \<noteq> None
              then markForDeletion (m_context node) n else id)
              (logCalls (map (OutputDisconnectAll n) [0 ..< length (m_outputs node)])
                 (updNode n (\<lambda>_. node) w)))))"
  using assms by (simp add: finishDeref_def Let_def)

lemma finishDeref_still_connected:
  "1 < m_connectionRefCount (nodes w n) \<Longrightarrow>
   finishDeref RefTypeConnection n w =
     Some (updNode n (\<lambda>node. node\<lparr>m_connectionRefCount := m_connectionRefCount node - 1\<rparr>) w)"
  by (simp add: finishDeref_def decrementRef_def Let_def updNode_def)

lemma finishDeref_disables:
  assumes "m_connectionRefCount (nodes w n) = 1" and "0 < m_normalRefCount (nodes w n)"
  shows "\<exists>w'. finishDeref RefTypeConnection n w = Some w' \<and>
     m_connectionRefCount (nodes w' n) = 0 \<and>
     (if m_nodeType (nodes w n) = NodeTypeConvolver \<or> m_nodeType (nodes w n) = NodeTypeDelay
      then m_isDisabled (nodes w' n) = m_isDisabled (nodes w n) \<and> calls w' = calls w
      else m_isDisabled (nodes w' n) \<and>
           calls w' = calls w @ (if m_isDisabled (nodes w n) then []
                                 else map (OutputDisable n) [0 ..< numberOfOutputs (nodes w n)]))"
  using assms
  by (simp add: finishDeref_def decrementRef_def Let_def disableOutputsIfNecessary_def
        store_simps numberOfOutputs_def)

lemma finishDeref_deletes:
  assumes "refType = RefTypeConnection \<and> m_connectionRefCount (nodes w n) = 1
             \<and> m_normalRefCount (nodes w n) = 0
           \<or> refType = RefTypeNormal \<and> m_normalRefCount (nodes w n) = 1
             \<and> m_connectionRefCount (nodes w n) = 0"
  shows "\<exists>w'. finishDeref refType n w = Some w' \<and>
     m_connectionRefCount (nodes w' n) = 0 \<and> m_normalRefCount (nodes w' n) = 0 \<and>
     m_isMarkedForDeletion (nodes w' n) \<and>
     (if m_isMarkedForDeletion (nodes w n)
      then calls w' = calls w \<and> contexts w' = contexts w
      else calls w' = calls w @ map (OutputDisconnectAll n) [0 ..< numberOfOutputs (nodes w n)] \<and>
           (case contexts w (m_context (nodes w n)) of
              None \<Rightarrow> contexts w' = contexts w
            | Some ac \<Rightarrow> contexts w' = (contexts w)(m_context (nodes w n) \<mapsto>
                 ac\<lparr>m_nodesMarkedForDeletion := m_nodesMarkedForDeletion ac @ [n]\<rparr>)))"
proof -
  from assms obtain node where d: "decrementRef refType (nodes w n) = Some node"
    by (auto simp: decrementRef_def)
  note f = decrementRef_fields [OF d]
  from assms f have z: "m_connectionRefCount node = 0" "m_normalRefCount node = 0"
    by auto
  show ?thesis
  proof (cases "m_isMarkedForDeletion (nodes w n)")
    case True
    then show ?thesis
      by (simp add: finishDeref_last [OF d z] f(1-3) z store_simps)
  next
    case False
    show ?thesis
    proof (cases "contexts w (m_context (nodes w n))")
      case None
      with False show ?thesis
        by (simp add: finishDeref_last [OF d z] f(1-3) z store_simps numberOfOutputs_def)
    next
      case (Some ac)
      with False show ?thesis
        by (simp add: finishDeref_last [OF d z] f(1-3) z store_simps numberOfOutputs_def
              markForDeletion_frame)
           (simp add: markForDeletion_def store_simps)
    qed
  qed
qed

text \<open>
  C3, as the code has it. A connection deref that leaves a connection count above 0 only
  decrements the count. One that brings the count to 0 while normal references remain
  disables the outputs, unless the node is a convolver or a delay (or is disabled
  already). When both counts have reached 0, every output is disconnect-all'd, in order,
  the node is marked for deletion and, with its context alive, put on the deletion list
  once; a node that carries the mark is not marked or listed again.
\<close>

theorem finishDeref_consequences:
  "(1 < m_connectionRefCount (nodes w n) \<longrightarrow>
      finishDeref RefTypeConnection n w =
        Some (updNode n (\<lambda>node. node\<lparr>m_connectionRefCount := m_connectionRefCount node - 1\<rparr>) w)) \<and>
   (m_connectionRefCount (nodes w n) = 1 \<and> 0 < m_normalRefCount (nodes w n) \<longrightarrow>
      (\<exists>w'. finishDeref RefTypeConnection n w = Some w' \<and>
         m_connectionRefCount (nodes w' n) = 0 \<and>
         (if m_nodeType (nodes w n) = NodeTypeConvolver \<or> m_nodeType (nodes w n) = NodeTypeDelay
          then m_isDisabled (nodes w' n) = m_isDisabled (nodes w n) \<and> calls w' = calls w
          else m_isDisabled (nodes w' n) \<and>
               calls w' = calls w @ (if m_isDisabled (nodes w n) then []
                                     else map (OutputDisable n) [0 ..< numberOfOutputs (nodes w n)])))) \<and>
   (refType = RefTypeConnection \<and> m_connectionRefCount (nodes w n) = 1
        \<and> m_normalRefCount (nodes w n) = 0
      \<or> refType = RefTypeNormal \<and> m_normalRefCount (nodes w n) = 1
        \<and> m_connectionRefCount (nodes w n) = 0 \<longrightarrow>
      (\<exists>w'. finishDeref refType n w = Some w' \<and>
         m_connectionRefCount (nodes w' n) = 0 \<and> m_normalRefCount (nodes w' n) = 0 \<and>
         m_isMarkedForDeletion (nodes w' n) \<and>
         (if m_isMarkedForDeletion (nodes w n)
          then calls w' = calls w \<and> contexts w' = contexts w
          else calls w' = calls w @ map (OutputDisconnectAll n) [0 ..< numberOfOutputs (nodes w n)] \<and>
               (case contexts w (m_context (nodes w n)) of
                  None \<Rightarrow> contexts w' = contexts w
                | Some ac \<Rightarrow> contexts w' = (contexts w)(m_context (nodes w n) \<mapsto>
                     ac\<lparr>m_nodesMarkedForDeletion := m_nodesMarkedForDeletion ac @ [n]\<rparr>)))))"
  using finishDeref_still_connected [of w n] finishDeref_disables [of w n]
    finishDeref_deletes [of refType w n]
  by blast

theorem finishDeref_consequences_witness:
  "(\<exists>w'. finishDeref RefTypeConnection 0 (oneNode (connectedNode 1)) = Some w' \<and>
      m_isDisabled (nodes w' 0) \<and> calls w' = [OutputDisable 0 0, OutputDisable 0 1]) \<and>
   (\<exists>w'. finishDeref RefTypeNormal 0 (oneNode (connectedNode 0)) = Some w' \<and>
      m_isMarkedForDeletion (nodes w' 0) \<and>
      calls w' = [OutputDisconnectAll 0 0, OutputDisconnectAll 0 1] \<and>
      map_option m_nodesMarkedForDeletion (contexts w' 0) = Some [0])"
proof -
  have u: "[0 ..< 2] = [0, Suc 0]" by (simp add: upt_rec)
  show ?thesis
    using finishDeref_consequences [of "oneNode (connectedNode 1)" 0 RefTypeConnection]
          finishDeref_consequences [of "oneNode (connectedNode 0)" 0 RefTypeNormal]
    by (auto simp: example_defs connectedNode_def numberOfOutputs_def u)
qed

text \<open>
  C3, as the claim has it, fails: a connection deref that brings the connection count of
  a node from 2 to 1, with a normal reference left and a type that is neither convolver
  nor delay, disables nothing; only the count changes.
\<close>

theorem finishDeref_counterexample:
  "m_connectionRefCount (nodes (oneNode (connectedNode 2)) 0) = 2 \<and>
   m_normalRefCount (nodes (oneNode (connectedNode 2)) 0) = 1 \<and>
   m_nodeType (nodes (oneNode (connectedNode 2)) 0) = NodeTypeUnknown \<and>
   finishDeref RefTypeConnection 0 (oneNode (connectedNode 2)) = Some (oneNode (connectedNode 1)) \<and>
   m_connectionRefCount (nodes (oneNode (connectedNode 1)) 0) = 1 \<and>
   \<not> m_isDisabled (nodes (oneNode (connectedNode 1)) 0) \<and>
   calls (oneNode (connectedNode 1)) = []"
  by (simp add: finishDeref_def decrementRef_def Let_def updNode_def
        oneNode_def worldOf_def connectedNode_def freshNode_def)

subsection \<open>Rendering: each node is processed at most once\<close>

lemma atMostOnce_refl: "atMostOnce m w w"
  by (simp add: atMostOnce_def sameClock_def)

lemma atMostOnce_trans: "atMostOnce m w w' \<Longrightarrow> atMostOnce m w' w'' \<Longrightarrow> atMostOnce m w w''"
  by (auto simp: atMostOnce_def sameClock_def clockOK_def)

text \<open>An update of a node that keeps its context and its last processing time.\<close>

lemma atMostOnce_updNode:
  assumes "m_context (f (nodes w n)) = m_context (nodes w n)"
    and "m_lastProcessingTime (f (nodes w n)) = m_lastProcessingTime (nodes w n)"
  shows "atMostOnce m w (updNode n f w)"
  using assms
  by (cases "m = n")
     (simp_all add: atMostOnce_def sameClock_def pending_def processCount_def store_simps
        split: option.splits)

lemma atMostOnce_updInput: "atMostOnce m w (updInput n i f w)"
  unfolding updInput_def by (rule atMostOnce_updNode) simp_all

lemma atMostOnce_processEach:
  assumes rec: "\<And>k v v'. rec k v = Some v' \<Longrightarrow> atMostOnce m v v'"
  shows "processEach rec ms w = Some w' \<Longrightarrow> atMostOnce m w w'"
proof (induction ms arbitrary: w)
  case Nil
  then show ?case by (simp add: atMostOnce_refl)
next
  case (Cons k ms)
  then obtain v where v: "rec k w = Some v" and rest: "processEach rec ms v = Some w'"
    by (auto split: option.splits)
  from rec [OF v] Cons.IH [OF rest] show ?case by (rule atMostOnce_trans)
qed

lemma atMostOnce_pull:
  assumes rec: "\<And>k v v'. rec k v = Some v' \<Longrightarrow> atMostOnce m v v'"
    and pull: "AudioNodeInput_pull ov rec n i w = Some w'"
  shows "atMostOnce m w w'"
proof (cases "in_renderingOutputs (m_inputs (nodes w n) ! i) = []")
  case True
  with pull show ?thesis by (auto simp: AudioNodeInput_pull_def atMostOnce_updInput)
next
  case False
  with pull obtain v where
    v: "processEach rec (map fst (in_renderingOutputs (m_inputs (nodes w n) ! i))) w = Some v"
    and w': "w' = updInput n i (\<lambda>inp. inp\<lparr>in_bus := mixBuses ov
                (connectedBuses v (in_renderingOutputs (m_inputs (nodes w n) ! i)))\<rparr>) v"
    by (auto simp: AudioNodeInput_pull_def Let_def split: option.splits)
  from atMostOnce_processEach [OF rec v] have "atMostOnce m w v" by simp
  then show ?thesis unfolding w' by (rule atMostOnce_trans) (rule atMostOnce_updInput)
qed

lemma atMostOnce_pullInputsLoop:
  assumes rec: "\<And>k v v'. rec k v = Some v' \<Longrightarrow> atMostOnce m v v'"
  shows "pullInputsLoop ov rec n js w = Some w' \<Longrightarrow> atMostOnce m w w'"
proof (induction js arbitrary: w)
  case Nil
  then show ?case by (simp add: atMostOnce_refl)
next
  case (Cons j js)
  then obtain v where v: "AudioNodeInput_pull ov rec n j w = Some v"
    and rest: "pullInputsLoop ov rec n js v = Some w'"
    by (auto split: option.splits)
  from atMostOnce_pull [OF rec v] Cons.IH [OF rest] show ?case by (rule atMostOnce_trans)
qed

lemma atMostOnce_pullInputs:
  assumes rec: "\<And>k v v'. rec k v = Some v' \<Longrightarrow> atMostOnce m v v'"
    and "pullInputs ov rec n w = Some w'"
  shows "atMostOnce m w w'"
proof -
  from assms(2) have "pullInputsLoop ov rec n [0 ..< length (m_inputs (nodes w n))] w = Some w'"
    by (simp add: pullInputs_def)
  with rec show ?thesis by (rule atMostOnce_pullInputsLoop)
qed

text \<open>The call of \<^verbatim>\<open>process\<close> counts once for its node and keeps the rest.\<close>

lemma process_count:
  "processCount m (unsilenceOutputs n (process ov n frames w))
     = processCount m w + (if m = n then 1 else 0)"
  by (simp add: unsilenceOutputs_def process_def processCount_def store_simps)

lemma process_pending: "pending m (unsilenceOutputs n (process ov n frames w)) = pending m w"
  by (cases "m = n")
     (simp_all add: unsilenceOutputs_def process_def pending_def store_simps split: option.splits)

lemma process_sameClock: "sameClock m w (unsilenceOutputs n (process ov n frames w))"
  by (cases "m = n") (simp_all add: unsilenceOutputs_def process_def sameClock_def store_simps)

lemma processOrSilence_step:
  assumes "processOrSilence ov ac frames n w = Some w'"
  shows "sameClock m w w'" and "pending m w' = pending m w"
    and "processCount m w \<le> processCount m w'"
    and "processCount m w' \<le> processCount m w + (if m = n then 1 else 0)"
proof -
  define v where "v = (if \<not> inputsAreSilent (nodes w n) then
                  updNode n (\<lambda>node. node\<lparr>m_lastNonSilentTime :=
                    endOfQuantum ov ac frames node\<rparr>) w
                else w)"
  have v: "sameClock m w v" "pending m v = pending m w" "processCount m v = processCount m w"
    by (cases "m = n"; simp add: v_def sameClock_def pending_def processCount_def store_simps
          split: option.splits)+
  from assms have "w' = silenceOutputs n v \<or> w' = unsilenceOutputs n (process ov n frames v)"
    by (auto simp: processOrSilence_def Let_def v_def split: option.splits if_splits)
  then have "sameClock m v w' \<and> pending m w' = pending m v \<and>
      processCount m v \<le> processCount m w' \<and>
      processCount m w' \<le> processCount m v + (if m = n then 1 else 0)"
  proof
    assume "w' = silenceOutputs n v"
    then show ?thesis
      by (cases "m = n"; simp add: silenceOutputs_def sameClock_def pending_def processCount_def
            store_simps split: option.splits)
  next
    assume "w' = unsilenceOutputs n (process ov n frames v)"
    then show ?thesis
      using process_count [of m n ov frames v] process_pending [of m n ov frames v]
        process_sameClock [of m v n ov frames] by simp
  qed
  with v show "sameClock m w w'" and "pending m w' = pending m w"
    and "processCount m w \<le> processCount m w'"
    and "processCount m w' \<le> processCount m w + (if m = n then 1 else 0)"
    by (simp_all add: sameClock_def)
qed

lemma atMostOnce_body:
  assumes rec: "\<And>k v v'. rec k v = Some v' \<Longrightarrow> atMostOnce m v v'"
    and body: "processIfNecessaryBody ov rec frames n w = Some w'"
  shows "atMostOnce m w w'"
proof (cases "contexts w (m_context (nodes w n))")
  case None
  with body show ?thesis by (simp add: processIfNecessaryBody_def atMostOnce_refl)
next
  case (Some ac)
  show ?thesis
  proof (cases "m_isInitialized (nodes w n) \<and>
                dne (m_lastProcessingTime (nodes w n)) (currentTime ac)")
    case False
    with body Some show ?thesis
      by (auto simp: processIfNecessaryBody_def atMostOnce_refl Let_def split: if_splits)
  next
    case True
    define w1 where "w1 = updNode n (\<lambda>node. node\<lparr>m_lastProcessingTime := currentTime ac\<rparr>) w"
    from body Some True
    have "(case pullInputs ov rec n w1 of None \<Rightarrow> None
           | Some w2 \<Rightarrow> processOrSilence ov ac frames n w2) = Some w'"
      by (simp add: processIfNecessaryBody_def Let_def w1_def)
    then obtain w2 where w2: "pullInputs ov rec n w1 = Some w2"
      and tail: "processOrSilence ov ac frames n w2 = Some w'"
      by (cases "pullInputs ov rec n w1") simp_all
    have w12: "atMostOnce m w1 w2" using rec w2 by (rule atMostOnce_pullInputs)
    note t = processOrSilence_step [OF tail, of m]
    have clock1: "sameClock m w w1" "clockOK m w1 = clockOK m w"
      by (cases "m = n"; simp add: w1_def sameClock_def clockOK_def store_simps)+
    have count1: "processCount m w1 = processCount m w"
      by (simp add: w1_def processCount_def store_simps)
    show ?thesis
    proof (cases "m = n")
      case neq: False
      have "pending m w1 = pending m w"
        using neq by (simp add: w1_def pending_def store_simps split: option.splits)
      with w12 clock1 count1 neq t show ?thesis
        by (auto simp: atMostOnce_def sameClock_def)
    next
      case eq: True
      have p0: "pending m w = 1" using Some True eq by (simp add: pending_def)
      have p1: "clockOK m w \<Longrightarrow> pending m w1 = 0"
        using Some eq by (simp add: w1_def pending_def store_simps clockOK_def dne_def deq_refl)
      with w12 clock1 count1 p0 eq t show ?thesis
        by (auto simp: atMostOnce_def sameClock_def)
    qed
  qed
qed

lemma atMostOnce_upstreamCalls:
  "upstreamCalls ov depth frames n w = Some w' \<Longrightarrow> atMostOnce m w w'"
proof (induction depth arbitrary: n w w')
  case 0
  then show ?case by simp
next
  case (Suc depth)
  from Suc.prems have "processIfNecessaryBody ov (upstreamCalls ov depth frames) frames n w = Some w'"
    by simp
  with Suc.IH show ?case by (rule atMostOnce_body)
qed

lemma atMostOnce_processIfNecessary:
  "processIfNecessary ov depth frames n w = Some w' \<Longrightarrow> atMostOnce m w w'"
  unfolding processIfNecessary_def by (rule atMostOnce_body [OF atMostOnce_upstreamCalls])

lemma pending_le: "pending m w \<le> 1"
  by (simp add: pending_def split: option.splits)

subsection \<open>Rendering: the calls return\<close>

lemma keepsGraph_refl: "keepsGraph w w"
  by (simp add: keepsGraph_def)

lemma keepsGraph_trans: "keepsGraph w w' \<Longrightarrow> keepsGraph w' w'' \<Longrightarrow> keepsGraph w w''"
  by (simp add: keepsGraph_def)

text \<open>An update of a node that keeps what \<open>keepsGraph\<close> looks at.\<close>

lemma keepsGraph_updNode:
  assumes "m_context (f (nodes w n)) = m_context (nodes w n)"
    and "m_isInitialized (f (nodes w n)) = m_isInitialized (nodes w n)"
    and "map in_renderingOutputs (m_inputs (f (nodes w n)))
           = map in_renderingOutputs (m_inputs (nodes w n))"
    and "m_lastProcessingTime (f (nodes w n)) = m_lastProcessingTime (nodes w n)"
  shows "keepsGraph w (updNode n f w)"
  using assms by (simp add: keepsGraph_def isPending_def store_simps split: option.splits)

lemma map_update_same: "(\<And>a. f (g a) = f a) \<Longrightarrow> map f (xs[i := g (xs ! i)]) = map f xs"
  by (induction xs arbitrary: i) (auto split: nat.splits)

lemma keepsGraph_updInput_bus:
  "keepsGraph w (updInput n i (\<lambda>inp. inp\<lparr>in_bus := b inp\<rparr>) w)"
  unfolding updInput_def
  by (rule keepsGraph_updNode) (simp_all add: map_update_same)

lemma keepsGraph_logCalls: "keepsGraph w (logCalls cs w)"
  by (simp add: keepsGraph_def isPending_def store_simps split: option.splits)

lemma readyFor_keepsGraph:
  assumes "readyFor K d w" and "keepsGraph w w'"
  shows "readyFor K d w'"
proof -
  from assms have fin: "finite K" by (simp add: readyFor_def renderClosed_def)
  have closed: "renderClosed K w'"
    unfolding renderClosed_def
  proof (intro conjI ballI)
    show "finite K" by (rule fin)
  next
    fix k inp cn
    assume k: "k \<in> K" and inp: "inp \<in> set (m_inputs (nodes w' k))"
      and cn: "cn \<in> set (in_renderingOutputs inp)"
    from inp have "in_renderingOutputs inp \<in> set (map in_renderingOutputs (m_inputs (nodes w' k)))"
      by simp
    with assms(2) have "in_renderingOutputs inp \<in> set (map in_renderingOutputs (m_inputs (nodes w k)))"
      by (simp add: keepsGraph_def)
    then obtain inp' where "inp' \<in> set (m_inputs (nodes w k))"
      and "in_renderingOutputs inp' = in_renderingOutputs inp"
      by auto
    with assms(1) k cn show "fst cn \<in> K"
      by (auto simp: readyFor_def renderClosed_def)
  qed
  have "pendingIn K w' \<subseteq> pendingIn K w"
    using assms(2) by (auto simp: pendingIn_def keepsGraph_def)
  then have "card (pendingIn K w') \<le> card (pendingIn K w)"
    using fin by (intro card_mono) (simp_all add: pendingIn_def)
  with assms closed show ?thesis
    by (simp add: readyFor_def clocksOK_def keepsGraph_def)
qed

lemma returnsOnD:
  "returnsOn K d rec \<Longrightarrow> k \<in> K \<Longrightarrow> readyFor K d v \<Longrightarrow> \<exists>v'. rec k v = Some v' \<and> keepsGraph v v'"
  by (simp add: returnsOn_def)

lemma processEach_returns:
  assumes rec: "returnsOn K d rec"
  shows "set ks \<subseteq> K \<Longrightarrow> readyFor K d w \<Longrightarrow> \<exists>w'. processEach rec ks w = Some w' \<and> keepsGraph w w'"
proof (induction ks arbitrary: w)
  case Nil
  then show ?case by (simp add: keepsGraph_refl)
next
  case (Cons k ks)
  from returnsOnD [OF rec _ Cons.prems(2), of k] Cons.prems(1)
  obtain v where v: "rec k w = Some v" "keepsGraph w v"
    by auto
  with Cons.prems have "readyFor K d v" by (blast intro: readyFor_keepsGraph)
  with Cons.IH Cons.prems obtain w' where "processEach rec ks v = Some w'" "keepsGraph v w'"
    by auto
  with v show ?case by (auto intro: keepsGraph_trans)
qed

lemma pull_returns:
  assumes rec: "returnsOn K d rec" and n: "n \<in> K" and i: "i < length (m_inputs (nodes w n))"
    and ready: "readyFor K d w"
  shows "\<exists>w'. AudioNodeInput_pull ov rec n i w = Some w' \<and> keepsGraph w w'"
proof (cases "in_renderingOutputs (m_inputs (nodes w n) ! i) = []")
  case True
  then show ?thesis
    by (simp add: AudioNodeInput_pull_def keepsGraph_updInput_bus)
next
  case False
  from n ready nth_mem [OF i]
  have "set (map fst (in_renderingOutputs (m_inputs (nodes w n) ! i))) \<subseteq> K"
    by (auto simp: readyFor_def renderClosed_def)
  with rec ready obtain v where
    "processEach rec (map fst (in_renderingOutputs (m_inputs (nodes w n) ! i))) w = Some v"
    "keepsGraph w v"
    by (blast dest: processEach_returns)
  with False show ?thesis
    by (auto simp: AudioNodeInput_pull_def Let_def intro: keepsGraph_trans keepsGraph_updInput_bus)
qed

lemma pullInputsLoop_returns:
  assumes rec: "returnsOn K d rec" and n: "n \<in> K"
  shows "\<forall>j \<in> set js. j < length (m_inputs (nodes w n)) \<Longrightarrow> readyFor K d w \<Longrightarrow>
         \<exists>w'. pullInputsLoop ov rec n js w = Some w' \<and> keepsGraph w w'"
proof (induction js arbitrary: w)
  case Nil
  then show ?case by (simp add: keepsGraph_refl)
next
  case (Cons j js)
  from pull_returns [OF rec n _ Cons.prems(2), of j ov] Cons.prems(1)
  obtain v where v: "AudioNodeInput_pull ov rec n j w = Some v" "keepsGraph w v"
    by auto
  from v(2) have "length (m_inputs (nodes v n)) = length (m_inputs (nodes w n))"
    by (auto simp: keepsGraph_def dest: map_eq_imp_length_eq)
  with Cons.prems(1) have idx: "\<forall>j \<in> set js. j < length (m_inputs (nodes v n))" by simp
  from Cons.prems(2) v(2) have "readyFor K d v" by (rule readyFor_keepsGraph)
  with Cons.IH idx obtain w' where "pullInputsLoop ov rec n js v = Some w'" "keepsGraph v w'"
    by blast
  with v show ?case by (auto intro: keepsGraph_trans)
qed

lemma pullInputs_returns:
  assumes "returnsOn K d rec" and "n \<in> K" and "readyFor K d w"
  shows "\<exists>w'. pullInputs ov rec n w = Some w' \<and> keepsGraph w w'"
  unfolding pullInputs_def using assms by (intro pullInputsLoop_returns) simp_all

lemma processOrSilence_returns:
  assumes "contexts w (m_context (nodes w n)) = Some ac'"
  shows "\<exists>w'. processOrSilence ov ac frames n w = Some w' \<and> keepsGraph w w'"
proof -
  define v where "v = (if \<not> inputsAreSilent (nodes w n) then
                  updNode n (\<lambda>node. node\<lparr>m_lastNonSilentTime :=
                    endOfQuantum ov ac frames node\<rparr>) w
                else w)"
  have wv: "keepsGraph w v"
    by (auto simp: v_def intro: keepsGraph_refl keepsGraph_updNode)
  then have ctx: "contexts v (m_context (nodes v n)) = Some ac'"
    using assms by (simp add: keepsGraph_def)
  have s: "keepsGraph v (silenceOutputs n v)"
    unfolding silenceOutputs_def by (rule keepsGraph_updNode) simp_all
  have "keepsGraph v (process ov n frames v)"
    unfolding process_def
    by (rule keepsGraph_trans [OF keepsGraph_updNode keepsGraph_logCalls]) simp_all
  moreover have "keepsGraph (process ov n frames v) (unsilenceOutputs n (process ov n frames v))"
    unfolding unsilenceOutputs_def by (rule keepsGraph_updNode) simp_all
  ultimately have p: "keepsGraph v (unsilenceOutputs n (process ov n frames v))"
    by (rule keepsGraph_trans)
  from ctx obtain ps where ps: "propagatesSilence ov n v = Some ps"
    by (simp add: propagatesSilence_def)
  have "processOrSilence ov ac frames n w =
          (if inputsAreSilent (nodes w n) \<and> ps then Some (silenceOutputs n v)
           else Some (unsilenceOutputs n (process ov n frames v)))"
    using ps by (simp add: processOrSilence_def Let_def v_def)
  with wv s p show ?thesis by (auto intro: keepsGraph_trans)
qed

lemma body_returns:
  assumes rec: "returnsOn K d rec" and n: "n \<in> K" and ready: "readyFor K (Suc d) w"
  shows "\<exists>w'. processIfNecessaryBody ov rec frames n w = Some w' \<and> keepsGraph w w'"
proof (cases "isPending n w")
  case False
  then have "processIfNecessaryBody ov rec frames n w = Some w"
    by (auto simp: processIfNecessaryBody_def isPending_def split: option.splits)
  then show ?thesis by (simp add: keepsGraph_refl)
next
  case True
  then obtain ac where ac: "contexts w (m_context (nodes w n)) = Some ac"
    and init: "m_isInitialized (nodes w n)"
    and due: "dne (m_lastProcessingTime (nodes w n)) (currentTime ac)"
    by (auto simp: isPending_def split: option.splits)
  define w1 where "w1 = updNode n (\<lambda>node. node\<lparr>m_lastProcessingTime := currentTime ac\<rparr>) w"
  from ready ac have num: "\<not> isnan (currentTime ac)" by (auto simp: readyFor_def clocksOK_def)
  have done1: "\<not> isPending n w1"
    using ac num by (simp add: w1_def isPending_def store_simps dne_def deq_refl)
  have other: "isPending k w1 = isPending k w" if "k \<noteq> n" for k
    using that by (simp add: w1_def isPending_def store_simps split: option.splits)
  have ww1: "keepsGraph w w1"
    unfolding keepsGraph_def
    using True done1 other by (auto simp: w1_def store_simps)
  from ready have fin: "finite K" by (simp add: readyFor_def renderClosed_def)
  have "k \<noteq> n \<and> isPending k w" if "isPending k w1" for k
    using that done1 other [of k] by (cases "k = n") simp_all
  then have "pendingIn K w1 \<subseteq> pendingIn K w - {n}"
    by (auto simp: pendingIn_def)
  then have "card (pendingIn K w1) \<le> card (pendingIn K w - {n})"
    using fin by (intro card_mono) (simp_all add: pendingIn_def)
  moreover have "n \<in> pendingIn K w" using n True by (simp add: pendingIn_def)
  then have "card (pendingIn K w - {n}) < card (pendingIn K w)"
    using fin by (intro card_Diff1_less) (simp_all add: pendingIn_def)
  ultimately have "card (pendingIn K w1) \<le> d"
    using ready by (simp add: readyFor_def)
  moreover from ready ww1 have "readyFor K (Suc d) w1" by (rule readyFor_keepsGraph)
  ultimately have ready1: "readyFor K d w1" by (simp add: readyFor_def)
  from pullInputs_returns [OF rec n ready1, of ov]
  obtain w2 where w2: "pullInputs ov rec n w1 = Some w2" "keepsGraph w1 w2" by blast
  from w2(2) ww1 ac have "contexts w2 (m_context (nodes w2 n)) = Some ac"
    by (simp add: keepsGraph_def)
  from processOrSilence_returns [OF this, of ov ac frames]
  obtain w' where w': "processOrSilence ov ac frames n w2 = Some w'" "keepsGraph w2 w'" by blast
  have "processIfNecessaryBody ov rec frames n w = Some w'"
    using ac init due w2(1) w'(1) by (simp add: processIfNecessaryBody_def Let_def w1_def)
  with ww1 w2(2) w'(2) show ?thesis by (blast intro: keepsGraph_trans)
qed

lemma upstreamCalls_returns: "returnsOn K d (upstreamCalls ov (Suc d) frames)"
proof (induction d)
  case 0
  show ?case
    unfolding returnsOn_def
  proof (intro allI impI)
    fix k v
    assume "k \<in> K" and r: "readyFor K 0 v"
    then have "\<not> isPending k v" by (auto simp: readyFor_def renderClosed_def pendingIn_def)
    then have "processIfNecessaryBody ov (\<lambda>n w. None) frames k v = Some v"
      by (auto simp: processIfNecessaryBody_def isPending_def split: option.splits)
    then show "\<exists>v'. upstreamCalls ov (Suc 0) frames k v = Some v' \<and> keepsGraph v v'"
      by (simp add: keepsGraph_refl)
  qed
next
  case (Suc d)
  show ?case
    unfolding returnsOn_def
  proof (intro allI impI)
    fix k v
    assume "k \<in> K" and "readyFor K (Suc d) v"
    with body_returns [OF Suc, of k v ov frames]
    show "\<exists>v'. upstreamCalls ov (Suc (Suc d)) frames k v = Some v' \<and> keepsGraph v v'"
      by simp
  qed
qed


text \<open>
  C1: a call of \<open>processIfNecessary\<close> for a node whose last processing time equals the
  current time of its context returns at once and leaves the store as it is: no input is
  pulled, no output bus touched. In one render quantum, that is over any sequence of
  calls of \<open>processIfNecessary\<close> while the contexts stand still, \<open>process\<close> of a node is
  invoked at most once, provided the current time of its context is a number. And over a
  finite graph with such clocks the sequence of calls returns, with every node processed
  at most once, as soon as the depth allowed is the number of nodes.
\<close>

theorem fanout_memoization:
  "(contexts w (m_context (nodes w n)) = Some ac \<and>
    deq (m_lastProcessingTime (nodes w n)) (currentTime ac)
      \<longrightarrow> processIfNecessary ov depth frames n w = Some w) \<and>
   (processEach (processIfNecessary ov depth frames) ns w = Some w' \<and>
    (\<forall>ac. contexts w (m_context (nodes w m)) = Some ac \<longrightarrow> \<not> isnan (currentTime ac))
      \<longrightarrow> processCount m w' \<le> processCount m w + 1) \<and>
   (renderClosed K w \<and> clocksOK w \<and> set ns \<subseteq> K \<and> card K \<le> depth
      \<longrightarrow> (\<exists>v. processEach (processIfNecessary ov depth frames) ns w = Some v \<and>
                (\<forall>k. processCount k v \<le> processCount k w + 1)))"
proof -
  have once: "processCount k v \<le> processCount k w + 1"
    if run: "processEach (processIfNecessary ov depth frames) ns w = Some v"
      and num: "\<forall>ac. contexts w (m_context (nodes w k)) = Some ac \<longrightarrow> \<not> isnan (currentTime ac)"
    for k v
  proof -
    from num have clock: "clockOK k w" by (simp add: clockOK_def split: option.splits)
    have "atMostOnce k w v"
      using atMostOnce_processIfNecessary run by (blast intro: atMostOnce_processEach)
    with clock have "processCount k v + pending k v \<le> processCount k w + pending k w"
      by (simp add: atMostOnce_def)
    with pending_le [of k w] show ?thesis by linarith
  qed
  show ?thesis
  proof (intro conjI impI)
    assume "contexts w (m_context (nodes w n)) = Some ac \<and>
            deq (m_lastProcessingTime (nodes w n)) (currentTime ac)"
    then show "processIfNecessary ov depth frames n w = Some w"
      by (simp add: processIfNecessary_def processIfNecessaryBody_def dne_def)
  next
    assume "processEach (processIfNecessary ov depth frames) ns w = Some w' \<and>
      (\<forall>ac. contexts w (m_context (nodes w m)) = Some ac \<longrightarrow> \<not> isnan (currentTime ac))"
    then show "processCount m w' \<le> processCount m w + 1" by (blast intro: once)
  next
    assume a: "renderClosed K w \<and> clocksOK w \<and> set ns \<subseteq> K \<and> card K \<le> depth"
    then have "card (pendingIn K w) \<le> card K"
      by (intro card_mono) (auto simp: renderClosed_def pendingIn_def)
    with a have ready: "readyFor K depth w" by (simp add: readyFor_def)
    have rec: "returnsOn K depth (processIfNecessary ov depth frames)"
      using upstreamCalls_returns [of K depth ov frames] by (simp add: processIfNecessary_def)
    from processEach_returns [OF rec _ ready, of ns] a
    obtain v where v: "processEach (processIfNecessary ov depth frames) ns w = Some v"
      by blast
    moreover from a have "\<forall>ac. contexts w (m_context (nodes w k)) = Some ac \<longrightarrow> \<not> isnan (currentTime ac)"
      for k by (simp add: clocksOK_def)
    ultimately show "\<exists>v. processEach (processIfNecessary ov depth frames) ns w = Some v \<and>
                (\<forall>k. processCount k v \<le> processCount k w + 1)"
      by (blast intro: once)
  qed
qed

text \<open>The fan-out of the example: rendering the destination twice in one quantum calls
  \<open>process\<close> of each of the four nodes once.\<close>

lemma fanOutWorld_calls:
  "map_option calls
     (processEach (processIfNecessary (overridesWithTail 2) 4 128) [3, 3] fanOutWorld)
   = Some [ProcessCall 0 128, ProcessCall 1 128, ProcessCall 2 128, ProcessCall 3 128]"
  by code_simp

theorem fanout_memoization_witness:
  "processIfNecessary (overridesWithTail 2) 0 128 0 (oneNode processedNode)
     = Some (oneNode processedNode) \<and>
   (\<exists>v. processEach (processIfNecessary (overridesWithTail 2) 4 128) [3, 3] fanOutWorld = Some v \<and>
      (\<forall>k. processCount k v \<le> processCount k fanOutWorld + 1))"
proof -
  have closed: "renderClosed {0, 1, 2, 3} fanOutWorld"
    by (simp add: renderClosed_def example_defs)
  have clocks: "clocksOK fanOutWorld"
    by (simp add: clocksOK_def example_defs)
  have memo: "contexts (oneNode processedNode) (m_context (nodes (oneNode processedNode) 0))
                = Some runningContext \<and>
              deq (m_lastProcessingTime (nodes (oneNode processedNode) 0)) (currentTime runningContext)"
    by (simp add: oneNode_def worldOf_def processedNode_def freshNode_def deq_def
          runningContext_def)
  from memo closed clocks
    fanout_memoization [where w = "oneNode processedNode" and n = 0 and ac = runningContext
      and ov = "overridesWithTail 2" and depth = 0 and frames = 128]
    fanout_memoization [where ov = "overridesWithTail 2" and depth = 4 and frames = 128
      and ns = "[3, 3]" and w = fanOutWorld and K = "{0, 1, 2, 3}"]
  show ?thesis by simp
qed

text \<open>
  C10: when the context of the node has expired or the node is not initialised,
  \<open>processIfNecessary\<close> returns at once, for every depth, and the store is as it was: no
  input pulled, the two times unchanged, no output bus and no silent flag modified.
\<close>

theorem processIfNecessary_noop:
  "contexts w (m_context (nodes w n)) = None \<or> \<not> m_isInitialized (nodes w n)
     \<longrightarrow> processIfNecessary ov depth frames n w = Some w"
  by (auto simp: processIfNecessary_def processIfNecessaryBody_def split: option.splits)

theorem processIfNecessary_noop_witness:
  "processIfNecessary (overridesWithTail 2) 0 128 0 (oneNode orphanNode) = Some (oneNode orphanNode) \<and>
   processIfNecessary (overridesWithTail 2) 0 128 0 (oneNode uninitializedNode)
     = Some (oneNode uninitializedNode)"
  using processIfNecessary_noop [of "oneNode orphanNode" 0 "overridesWithTail 2" 0 128]
        processIfNecessary_noop [of "oneNode uninitializedNode" 0 "overridesWithTail 2" 0 128]
  by (simp add: oneNode_def worldOf_def orphanNode_def uninitializedNode_def freshNode_def)

subsection \<open>Rendering: silence\<close>














end
